theory Spec2Isabelle
  imports Main "HOL-Library.Word" "HOL-Library.Monad_Syntax"
begin

unbundle bit_operations_syntax

section \<open>Types of the driver\<close>

text \<open>
  The driver is built for the AVR targets of its HAL (\<^verbatim>\<open>AT24CM0X_HAL_PLATFORM\<close> is
  \<^verbatim>\<open>avr\<close> or \<^verbatim>\<open>avr0\<close>): \<^verbatim>\<open>unsigned char\<close> has 8 bits, \<^verbatim>\<open>unsigned int\<close> 16 and
  \<^verbatim>\<open>unsigned long\<close> 32. A C enumerator is an \<^verbatim>\<open>int\<close>; the enumerators of the HAL are kept
  as 16-bit codes.
\<close>

type_synonym uchar = "8 word"
type_synonym uint = "16 word"
type_synonym ulong = "32 word"
type_synonym twi_enum = "16 word"
type_synonym TWI_Error = "16 word"

text \<open>\<^verbatim>\<open>enum AT24CM0X_WP_Mode_t\<close> and \<^verbatim>\<open>enum AT24CM0X_Status_t\<close> of at24cm0x.h.\<close>

datatype AT24CM0X_WP_Mode =
    AT24CM0X_WP_Mode_Enabled
  | AT24CM0X_WP_Mode_Disabled

datatype AT24CM0X_Status =
    AT24CM0X_Status_Done
  | AT24CM0X_Status_Address_Error
  | AT24CM0X_Status_Page_Error
  | AT24CM0X_Status_Size_Error
  | AT24CM0X_Status_Data_Error
  | AT24CM0X_Status_TWI_Error
  | AT24CM0X_Status_General_Error

text \<open>
  The build of the driver: the macros of at24cm0x.h, each of which the header lets the
  build override, the four feature switches (\<^verbatim>\<open>#ifdef\<close>), and the enumerators of the HAL
  header twi.h that the driver names. twi.h is not part of the sources, so the values of
  \<^verbatim>\<open>TWI_Write\<close>, \<^verbatim>\<open>TWI_Read\<close>, \<^verbatim>\<open>TWI_Ack\<close> and \<^verbatim>\<open>TWI_NACK\<close> are parameters.
\<close>

record at24cm0x_h =
  AT24CM0X_MEMORY_SIZE :: ulong
  AT24CM0X_PAGES :: ulong
  AT24CM0X_PAGE_SIZE :: ulong
  AT24CM0X_BASE_ADDRESS :: uchar
  AT24CM0X_ADDRESS_MASK :: uchar
  AT24CM0X_ADDRESS_HIGH_MASK :: uchar
  AT24CM0X_ADDRESS :: uchar
  AT24CM0X_WRITE_CYCLE_MS :: ulong
  AT24CM0X_MULTI_DEVICES :: bool
  AT24CM0X_WP_CONTROL_EN :: bool
  AT24CM0X_WRITE_ACKNOWLEDGE_POLLING :: bool
  AT24CM0X_ENABLE_INTEGRITY_CHECK :: bool
  TWI_Write :: twi_enum
  TWI_Read :: twi_enum
  TWI_Ack :: twi_enum
  TWI_NACK :: twi_enum

text \<open>
  Modelled from the spec: the enumerator \<^verbatim>\<open>TWI_None\<close> of the absent twi.h. The spec calls a
  transport error "any nonzero accumulated fault from the bus", so the empty fault is 0.
\<close>

definition TWI_None :: TWI_Error where
  "TWI_None = 0"

text \<open>
  The defaults that at24cm0x.h derives from \<^verbatim>\<open>AT24CM0X_MEMORY_SIZE\<close> and from the levels of
  the pins A2 and A1 (lines 112 to 145 and 199 to 209 of the header).
\<close>

definition AT24CM0X_ADDRESS_MASK_default :: "ulong \<Rightarrow> uchar" where
  "AT24CM0X_ADDRESS_MASK_default memory_size = (if memory_size < 262144 then 0x06 else 0x04)"

definition AT24CM0X_ADDRESS_HIGH_MASK_default :: "ulong \<Rightarrow> uchar" where
  "AT24CM0X_ADDRESS_HIGH_MASK_default memory_size = (if memory_size < 262144 then 0x01 else 0x03)"

definition AT24CM0X_ADDRESS_default :: "ulong \<Rightarrow> uchar \<Rightarrow> uchar \<Rightarrow> uchar \<Rightarrow> uchar" where
  "AT24CM0X_ADDRESS_default memory_size base a2 a1 =
     (if memory_size < 262144 then base OR push_bit 2 a2 OR push_bit 1 a1
      else base OR push_bit 2 a2)"

text \<open>A build that keeps the header's base address, masks and single-device address, with
  the pins A2 and A1 at the levels \<open>a2\<close> and \<open>a1\<close> (the single-device address is not used
  by a multi-device build).\<close>

definition header_defaults :: "at24cm0x_h \<Rightarrow> uchar \<Rightarrow> uchar \<Rightarrow> bool" where
  "header_defaults c a2 a1 \<longleftrightarrow>
     AT24CM0X_BASE_ADDRESS c = 0x50 \<and>
     AT24CM0X_ADDRESS_MASK c = AT24CM0X_ADDRESS_MASK_default (AT24CM0X_MEMORY_SIZE c) \<and>
     AT24CM0X_ADDRESS_HIGH_MASK c = AT24CM0X_ADDRESS_HIGH_MASK_default (AT24CM0X_MEMORY_SIZE c) \<and>
     AT24CM0X_ADDRESS c =
       AT24CM0X_ADDRESS_default (AT24CM0X_MEMORY_SIZE c) (AT24CM0X_BASE_ADDRESS c) a2 a1"

section \<open>The collaborators: bus, delay and write-protect pin\<close>

text \<open>
  Every call that leaves the driver is recorded, in order, with its arguments.
\<close>

datatype call =
    Twi_start
  | Twi_stop
  | Twi_address uchar twi_enum
  | Twi_set uchar
  | Twi_get twi_enum
  | At24cm0x_wp AT24CM0X_WP_Mode
  | Systick_timer_wait_ms ulong

text \<open>
  The state of the driver is its one global, \<^verbatim>\<open>at24cm0x_device_identifier\<close>; the record of
  calls rides along with it.
\<close>

record driver =
  at24cm0x_device_identifier :: uchar
  calls :: "call list"

text \<open>
  The bus is any deterministic device: from the calls made so far, the last being the one
  it answers, it gives the \<^verbatim>\<open>TWI_Error\<close> the primitive returns and, for \<^verbatim>\<open>twi_get\<close>, the byte
  received.
\<close>

type_synonym twi_bus = "call list \<Rightarrow> TWI_Error \<times> uchar"

definition record_call :: "call \<Rightarrow> driver \<Rightarrow> driver" where
  "record_call e s = s\<lparr>calls := calls s @ [e]\<rparr>"

text \<open>
  Modelled from the spec: the primitives of the HAL (twi.h), of the delay source
  (systick.h) and of the write-protect pin (\<^verbatim>\<open>at24cm0x_wp\<close> is declared in at24cm0x.h and
  defined by the application), none of which is part of the sources. After the spec's
  external interfaces: \<^verbatim>\<open>start\<close> and \<^verbatim>\<open>stop\<close> generate a condition, \<^verbatim>\<open>address\<close> and \<^verbatim>\<open>send\<close>
  return the fault of the bus, \<^verbatim>\<open>recv\<close> receives one byte into its out-parameter and returns
  the fault, \<^verbatim>\<open>wait_ms\<close> blocks, \<^verbatim>\<open>wp\<close> drives the pin.
\<close>

definition twi_start :: "driver \<Rightarrow> driver" where
  "twi_start s = record_call Twi_start s"

definition twi_stop :: "driver \<Rightarrow> driver" where
  "twi_stop s = record_call Twi_stop s"

definition twi_address :: "twi_bus \<Rightarrow> uchar \<Rightarrow> twi_enum \<Rightarrow> driver \<Rightarrow> TWI_Error \<times> driver" where
  "twi_address bus address operation s =
     (let s' = record_call (Twi_address address operation) s in (fst (bus (calls s')), s'))"

definition twi_set :: "twi_bus \<Rightarrow> uchar \<Rightarrow> driver \<Rightarrow> TWI_Error \<times> driver" where
  "twi_set bus data s =
     (let s' = record_call (Twi_set data) s in (fst (bus (calls s')), s'))"

definition twi_get :: "twi_bus \<Rightarrow> twi_enum \<Rightarrow> driver \<Rightarrow> TWI_Error \<times> uchar \<times> driver" where
  "twi_get bus acknowledge s =
     (let s' = record_call (Twi_get acknowledge) s
      in (fst (bus (calls s')), snd (bus (calls s')), s'))"

definition at24cm0x_wp :: "AT24CM0X_WP_Mode \<Rightarrow> driver \<Rightarrow> driver" where
  "at24cm0x_wp mode s = record_call (At24cm0x_wp mode) s"

definition systick_timer_wait_ms :: "ulong \<Rightarrow> driver \<Rightarrow> driver" where
  "systick_timer_wait_ms ms s = record_call (Systick_timer_wait_ms ms) s"

section \<open>at24cm0x.c\<close>

subsection \<open>Initialisation and device selection\<close>

definition at24cm0x_init :: "at24cm0x_h \<Rightarrow> driver \<Rightarrow> driver" where
  "at24cm0x_init c s =
     (let s1 = (if AT24CM0X_WP_CONTROL_EN c then at24cm0x_wp AT24CM0X_WP_Mode_Enabled s else s)
      in if AT24CM0X_MULTI_DEVICES c
         then s1\<lparr>at24cm0x_device_identifier := AT24CM0X_BASE_ADDRESS c\<rparr>
         else s1\<lparr>at24cm0x_device_identifier := AT24CM0X_ADDRESS c\<rparr>)"

text \<open>Compiled only when \<^verbatim>\<open>AT24CM0X_MULTI_DEVICES\<close> is defined.\<close>

definition at24cm0x_device :: "at24cm0x_h \<Rightarrow> uchar \<Rightarrow> driver \<Rightarrow> driver" where
  "at24cm0x_device c identifier s =
     s\<lparr>at24cm0x_device_identifier :=
         AT24CM0X_BASE_ADDRESS c OR (identifier AND AT24CM0X_ADDRESS_MASK c)\<rparr>"

subsection \<open>Acknowledge polling\<close>

text \<open>
  Compiled only when \<^verbatim>\<open>AT24CM0X_WRITE_ACKNOWLEDGE_POLLING\<close> is defined. The \<^verbatim>\<open>do \<dots> while\<close>
  has no bound: the result is \<open>None\<close> when the loop never ends.
\<close>

partial_function (option) at24cm0x_write_acknowledge_polling ::
    "at24cm0x_h \<Rightarrow> twi_bus \<Rightarrow> driver \<Rightarrow> driver option" where
  "at24cm0x_write_acknowledge_polling c bus s =
     (let s1 = twi_start s;
          (error, s2) = twi_address bus (at24cm0x_device_identifier s1) (TWI_Write c) s1
      in if error = TWI_Ack c
         then at24cm0x_write_acknowledge_polling c bus s2
         else Some (twi_stop s2))"

subsection \<open>The address phase\<close>

definition at24cm0x_send_address :: "at24cm0x_h \<Rightarrow> twi_bus \<Rightarrow> ulong \<Rightarrow> driver \<Rightarrow> TWI_Error \<times> driver" where
  "at24cm0x_send_address c bus address s =
     (let high_byte = at24cm0x_device_identifier s OR
                        (AT24CM0X_ADDRESS_HIGH_MASK c AND (ucast (drop_bit 16 address) :: uchar));
          middle_byte = (ucast (drop_bit 8 address) :: uchar);
          low_byte = (ucast address :: uchar);
          error = TWI_None;
          (e1, s1) = twi_address bus high_byte (TWI_Write c) s;
          error = error OR e1;
          (e2, s2) = twi_set bus middle_byte s1;
          error = error OR e2;
          (e3, s3) = twi_set bus low_byte s2;
          error = error OR e3
      in (error, s3))"

subsection \<open>Reading\<close>

text \<open>
  A pointer the driver stores through is modelled by the value behind it: the functions
  that take \<^verbatim>\<open>unsigned char *data\<close> for one byte take the old byte and return the new one.
\<close>

definition at24cm0x_read_current_byte ::
    "at24cm0x_h \<Rightarrow> twi_bus \<Rightarrow> uchar \<Rightarrow> driver \<Rightarrow> AT24CM0X_Status \<times> uchar \<times> driver" where
  "at24cm0x_read_current_byte c bus data s =
     (let error = TWI_None;
          s1 = twi_start s;
          (e1, s2) = twi_address bus (at24cm0x_device_identifier s1) (TWI_Read c) s1;
          error = error OR e1;
          (e2, data', s3) = twi_get bus (TWI_NACK c) s2;
          error = error OR e2;
          s4 = twi_stop s3
      in if error \<noteq> TWI_None
         then (AT24CM0X_Status_TWI_Error, data', s4)
         else (AT24CM0X_Status_Done, data', s4))"

definition at24cm0x_read_byte ::
    "at24cm0x_h \<Rightarrow> twi_bus \<Rightarrow> ulong \<Rightarrow> uchar \<Rightarrow> driver \<Rightarrow> AT24CM0X_Status \<times> uchar \<times> driver" where
  "at24cm0x_read_byte c bus address data s =
     (if address \<ge> AT24CM0X_MEMORY_SIZE c
      then (AT24CM0X_Status_Address_Error, data, s)
      else
        (let status = AT24CM0X_Status_Done;
             error = TWI_None;
             s1 = twi_start s;
             (e1, s2) = at24cm0x_send_address c bus address s1;
             error = error OR e1;
             s3 = twi_stop s2;
             s4 = twi_start s3;
             (e2, s5) = twi_address bus (at24cm0x_device_identifier s4) (TWI_Read c) s4;
             error = error OR e2;
             (e3, data', s6) = twi_get bus (TWI_NACK c) s5;
             error = error OR e3;
             s7 = twi_stop s6
         in if error \<noteq> TWI_None \<or> status \<noteq> AT24CM0X_Status_Done
            then (AT24CM0X_Status_TWI_Error, data', s7)
            else (AT24CM0X_Status_Done, data', s7)))"

text \<open>
  The \<^verbatim>\<open>for\<close> loop of \<^verbatim>\<open>at24cm0x_read_sequential\<close>, from the counter \<open>i\<close> on. The bytes
  stored to \<^verbatim>\<open>data + i\<close> are collected in order: the counter starts at 0 and steps by one,
  so the list is the buffer from \<^verbatim>\<open>data[0]\<close> on.
\<close>

function at24cm0x_read_sequential_loop ::
    "at24cm0x_h \<Rightarrow> twi_bus \<Rightarrow> uint \<Rightarrow> uint \<Rightarrow> TWI_Error \<times> uchar list \<times> driver
      \<Rightarrow> TWI_Error \<times> uchar list \<times> driver" where
  "at24cm0x_read_sequential_loop c bus size' i (error, data, s) =
     (if i < size'
      then
        (let ack = (if i \<ge> size' - 1 then TWI_NACK c else TWI_Ack c);
             (e, d, s') = twi_get bus ack s
         in at24cm0x_read_sequential_loop c bus size' (i + 1) (error OR e, data @ [d], s'))
      else (error, data, s))"
  by pat_completeness auto
termination
proof (relation "measure (\<lambda>(c, bus, size' :: uint, i :: uint, acc). unat size' - unat i)")
  show "wf (measure (\<lambda>(c :: at24cm0x_h, bus :: twi_bus, size' :: uint, i :: uint,
      acc :: TWI_Error \<times> uchar list \<times> driver). unat size' - unat i))"
    by simp
next
  fix c :: at24cm0x_h and bus :: twi_bus and size' i :: uint and error :: TWI_Error
    and data :: "uchar list" and s :: driver and ack x y e xa ya d s'
  assume less: "i < size'"
  then have lt: "unat i < unat size'" by (simp add: word_less_nat_alt)
  moreover have "unat size' < 2 ^ 16" using unsigned_less [of size', where 'a = nat] by simp
  ultimately have "unat i + 1 < 2 ^ 16" by simp
  then have "unat (i + 1) = Suc (unat i)" by (simp add: unat_word_ariths)
  with lt
  show "((c, bus, size', i + 1, error OR e, data @ [d], s'), (c, bus, size', i, error, data, s))
      \<in> measure (\<lambda>(c, bus, size', i, acc). unat size' - unat i)"
    by simp
qed

declare at24cm0x_read_sequential_loop.simps [simp del]

definition at24cm0x_read_sequential ::
    "at24cm0x_h \<Rightarrow> twi_bus \<Rightarrow> ulong \<Rightarrow> uint \<Rightarrow> driver \<Rightarrow> AT24CM0X_Status \<times> uchar list \<times> driver" where
  "at24cm0x_read_sequential c bus address size' s =
     (if address \<ge> AT24CM0X_MEMORY_SIZE c
      then (AT24CM0X_Status_Address_Error, [], s)
      else if size' = 0
      then (AT24CM0X_Status_Size_Error, [], s)
      else
        (let status = AT24CM0X_Status_Done;
             error = TWI_None;
             s1 = twi_start s;
             (e1, s2) = at24cm0x_send_address c bus address s1;
             error = error OR e1;
             s3 = twi_stop s2;
             s4 = twi_start s3;
             (e2, s5) = twi_address bus (at24cm0x_device_identifier s4) (TWI_Read c) s4;
             error = error OR e2;
             (error, data, s6) = at24cm0x_read_sequential_loop c bus size' 0 (error, [], s5);
             s7 = twi_stop s6
         in if error \<noteq> TWI_None \<or> status \<noteq> AT24CM0X_Status_Done
            then (AT24CM0X_Status_TWI_Error, data, s7)
            else (AT24CM0X_Status_Done, data, s7)))"

subsection \<open>Writing\<close>

text \<open>
  The wait for the chip's write cycle that both write functions make after their stop
  condition: polling or the fixed delay, as the build chooses (lines 122 to 126 and 201
  to 205).
\<close>

definition write_cycle_wait :: "at24cm0x_h \<Rightarrow> twi_bus \<Rightarrow> driver \<Rightarrow> driver option" where
  "write_cycle_wait c bus s =
     (if AT24CM0X_WRITE_ACKNOWLEDGE_POLLING c
      then at24cm0x_write_acknowledge_polling c bus s
      else Some (systick_timer_wait_ms (AT24CM0X_WRITE_CYCLE_MS c) s))"

definition at24cm0x_write_byte ::
    "at24cm0x_h \<Rightarrow> twi_bus \<Rightarrow> ulong \<Rightarrow> uchar \<Rightarrow> driver \<Rightarrow> (AT24CM0X_Status \<times> driver) option" where
  "at24cm0x_write_byte c bus address data s =
     (if address \<ge> AT24CM0X_MEMORY_SIZE c
      then Some (AT24CM0X_Status_Address_Error, s)
      else
        (let error = TWI_None;
             s1 = (if AT24CM0X_WP_CONTROL_EN c then at24cm0x_wp AT24CM0X_WP_Mode_Disabled s else s);
             s2 = twi_start s1;
             (e1, s3) = at24cm0x_send_address c bus address s2;
             error = error OR e1;
             (e2, s4) = twi_set bus data s3;
             error = error OR e2;
             s5 = twi_stop s4
         in do {
              s6 \<leftarrow> write_cycle_wait c bus s5;
              let s7 = (if AT24CM0X_WP_CONTROL_EN c
                        then at24cm0x_wp AT24CM0X_WP_Mode_Enabled s6 else s6);
              if error \<noteq> TWI_None
              then Some (AT24CM0X_Status_TWI_Error, s7)
              else if AT24CM0X_ENABLE_INTEGRITY_CHECK c
              then
                (let temp = 0;
                     (status, temp, s8) = at24cm0x_read_byte c bus address temp s7
                 in if status \<noteq> AT24CM0X_Status_Done
                    then Some (AT24CM0X_Status_TWI_Error, s8)
                    else if data \<noteq> temp
                    then Some (AT24CM0X_Status_Data_Error, s8)
                    else Some (AT24CM0X_Status_Done, s8))
              else Some (AT24CM0X_Status_Done, s7)
            }))"

text \<open>
  The caller's buffer of \<^verbatim>\<open>at24cm0x_write_page\<close> is the memory from \<^verbatim>\<open>data\<close> on, a function
  of the offset. The first loop transmits it, the second compares it with the bytes read
  back and leaves at the first difference (\<open>True\<close>: a difference was found).
\<close>

function at24cm0x_write_page_loop ::
    "twi_bus \<Rightarrow> (nat \<Rightarrow> uchar) \<Rightarrow> uint \<Rightarrow> uint \<Rightarrow> TWI_Error \<times> driver \<Rightarrow> TWI_Error \<times> driver" where
  "at24cm0x_write_page_loop bus data size' i (error, s) =
     (if i < size'
      then
        (let (e, s') = twi_set bus (data (unat i)) s
         in at24cm0x_write_page_loop bus data size' (i + 1) (error OR e, s'))
      else (error, s))"
  by pat_completeness auto
termination
proof (relation "measure (\<lambda>(bus, data, size' :: uint, i :: uint, acc). unat size' - unat i)")
  show "wf (measure (\<lambda>(bus :: twi_bus, data :: nat \<Rightarrow> uchar, size' :: uint, i :: uint,
      acc :: TWI_Error \<times> driver). unat size' - unat i))"
    by simp
next
  fix bus :: twi_bus and data :: "nat \<Rightarrow> uchar" and size' i :: uint and error :: TWI_Error
    and s :: driver and x e s'
  assume less: "i < size'"
  then have lt: "unat i < unat size'" by (simp add: word_less_nat_alt)
  moreover have "unat size' < 2 ^ 16" using unsigned_less [of size', where 'a = nat] by simp
  ultimately have "unat i + 1 < 2 ^ 16" by simp
  then have "unat (i + 1) = Suc (unat i)" by (simp add: unat_word_ariths)
  with lt
  show "((bus, data, size', i + 1, error OR e, s'), (bus, data, size', i, error, s))
      \<in> measure (\<lambda>(bus, data, size', i, acc). unat size' - unat i)"
    by simp
qed

declare at24cm0x_write_page_loop.simps [simp del]

function at24cm0x_write_page_compare ::
    "uchar list \<Rightarrow> (nat \<Rightarrow> uchar) \<Rightarrow> uint \<Rightarrow> uint \<Rightarrow> bool" where
  "at24cm0x_write_page_compare buffer data size' i =
     (if i < size'
      then
        (if buffer ! unat i \<noteq> data (unat i) then True
         else at24cm0x_write_page_compare buffer data size' (i + 1))
      else False)"
  by pat_completeness auto
termination
proof (relation "measure (\<lambda>(buffer, data, size' :: uint, i :: uint). unat size' - unat i)")
  show "wf (measure (\<lambda>(buffer :: uchar list, data :: nat \<Rightarrow> uchar, size' :: uint, i :: uint).
      unat size' - unat i))"
    by simp
next
  fix buffer :: "uchar list" and data :: "nat \<Rightarrow> uchar" and size' i :: uint
  assume less: "i < size'"
  then have lt: "unat i < unat size'" by (simp add: word_less_nat_alt)
  moreover have "unat size' < 2 ^ 16" using unsigned_less [of size', where 'a = nat] by simp
  ultimately have "unat i + 1 < 2 ^ 16" by simp
  then have "unat (i + 1) = Suc (unat i)" by (simp add: unat_word_ariths)
  with lt
  show "((buffer, data, size', i + 1), (buffer, data, size', i))
      \<in> measure (\<lambda>(buffer, data, size', i). unat size' - unat i)"
    by simp
qed

declare at24cm0x_write_page_compare.simps [simp del]

text \<open>
  \<^verbatim>\<open>page\<close> and \<^verbatim>\<open>size\<close> are \<^verbatim>\<open>unsigned int\<close>; the macros they meet are \<^verbatim>\<open>unsigned long\<close>, so
  C converts them to 32 bits before it compares or multiplies. The value that
  \<^verbatim>\<open>at24cm0x_send_address\<close> returns is dropped (line 193).
\<close>

definition at24cm0x_write_page ::
    "at24cm0x_h \<Rightarrow> twi_bus \<Rightarrow> uint \<Rightarrow> (nat \<Rightarrow> uchar) \<Rightarrow> uint \<Rightarrow> driver
      \<Rightarrow> (AT24CM0X_Status \<times> driver) option" where
  "at24cm0x_write_page c bus page data size' s =
     (if (ucast page :: ulong) \<ge> AT24CM0X_PAGES c
      then Some (AT24CM0X_Status_Page_Error, s)
      else if size' = 0 \<or> (ucast size' :: ulong) \<ge> AT24CM0X_PAGE_SIZE c
      then Some (AT24CM0X_Status_Size_Error, s)
      else
        (let error = TWI_None;
             address = (ucast page :: ulong) * AT24CM0X_PAGE_SIZE c;
             s1 = (if AT24CM0X_WP_CONTROL_EN c then at24cm0x_wp AT24CM0X_WP_Mode_Disabled s else s);
             s2 = twi_start s1;
             (dropped, s3) = at24cm0x_send_address c bus address s2;
             (error, s4) = at24cm0x_write_page_loop bus data size' 0 (error, s3);
             s5 = twi_stop s4
         in do {
              s6 \<leftarrow> write_cycle_wait c bus s5;
              let s7 = (if AT24CM0X_WP_CONTROL_EN c
                        then at24cm0x_wp AT24CM0X_WP_Mode_Enabled s6 else s6);
              if AT24CM0X_ENABLE_INTEGRITY_CHECK c
              then
                (let (status, buffer, s8) = at24cm0x_read_sequential c bus address size' s7
                 in if status \<noteq> AT24CM0X_Status_Done
                    then Some (AT24CM0X_Status_TWI_Error, s8)
                    else if at24cm0x_write_page_compare buffer data size' 0
                    then Some (AT24CM0X_Status_Data_Error, s8)
                    else if error \<noteq> TWI_None
                    then Some (AT24CM0X_Status_TWI_Error, s8)
                    else Some (AT24CM0X_Status_Done, s8))
              else if error \<noteq> TWI_None
              then Some (AT24CM0X_Status_TWI_Error, s7)
              else Some (AT24CM0X_Status_Done, s7)
            }))"

section \<open>Reading the record of calls\<close>

text \<open>The levels that the write-protect pin was driven to, in order.\<close>

fun wp_modes :: "call list \<Rightarrow> AT24CM0X_WP_Mode list" where
  "wp_modes [] = []"
| "wp_modes (At24cm0x_wp mode # cs) = mode # wp_modes cs"
| "wp_modes (other # cs) = wp_modes cs"

section \<open>A concrete build, bus and driver\<close>

text \<open>
  The build that at24cm0x.h gives when nothing is overridden: 2 Mbit, 1024 pages of 256
  bytes, base address \<^verbatim>\<open>0x50\<close>, pin A2 high, a write cycle of 10 ms, every switch off. The
  codes of the four HAL enumerators are picked for the examples only; every general
  theorem below holds for all codes.
\<close>

definition header_build :: at24cm0x_h where
  "header_build =
     \<lparr>AT24CM0X_MEMORY_SIZE = 262144,
      AT24CM0X_PAGES = 1024,
      AT24CM0X_PAGE_SIZE = 256,
      AT24CM0X_BASE_ADDRESS = 0x50,
      AT24CM0X_ADDRESS_MASK = 0x04,
      AT24CM0X_ADDRESS_HIGH_MASK = 0x03,
      AT24CM0X_ADDRESS = 0x54,
      AT24CM0X_WRITE_CYCLE_MS = 10,
      AT24CM0X_MULTI_DEVICES = False,
      AT24CM0X_WP_CONTROL_EN = False,
      AT24CM0X_WRITE_ACKNOWLEDGE_POLLING = False,
      AT24CM0X_ENABLE_INTEGRITY_CHECK = False,
      TWI_Write = 0,
      TWI_Read = 1,
      TWI_Ack = 3,
      TWI_NACK = 0\<rparr>"

text \<open>A bus that acknowledges every call and delivers the byte \<^verbatim>\<open>0xA5\<close>.\<close>

definition bus_ok :: twi_bus where
  "bus_ok history = (TWI_None, 0xA5)"

text \<open>The driver of the default build after \<^verbatim>\<open>at24cm0x_init\<close>, with nothing recorded yet.\<close>

definition driver_ready :: driver where
  "driver_ready = \<lparr>at24cm0x_device_identifier = 0x54, calls = []\<rparr>"

text \<open>A chip that is busy with its write cycle during the first two polls: counted from
  an empty record, it answers the first two address calls with \<^verbatim>\<open>TWI_Ack\<close> of the example
  build and everything after them with \<^verbatim>\<open>TWI_None\<close>.\<close>

definition bus_busy_twice :: twi_bus where
  "bus_busy_twice history = (if length history < 6 then 3 else TWI_None, 0xA5)"

text \<open>The default build with write-protect control, and a bus on which every call fails.\<close>

definition wp_build :: at24cm0x_h where
  "wp_build = header_build\<lparr>AT24CM0X_WP_CONTROL_EN := True\<rparr>"

definition bus_fault :: twi_bus where
  "bus_fault history = (1, 0)"

text \<open>The default build with the integrity check, and a bus that acknowledges the first
  \<open>k - 1\<close> calls of the record and fails from call \<open>k\<close> on, delivering \<^verbatim>\<open>0x7E\<close>.\<close>

definition integrity_build :: at24cm0x_h where
  "integrity_build = header_build\<lparr>AT24CM0X_ENABLE_INTEGRITY_CHECK := True\<rparr>"

definition bus_fault_from :: "nat \<Rightarrow> twi_bus" where
  "bus_fault_from k history = (if length history < k then TWI_None else 1, 0x7E)"

text \<open>Two buses with a fault in one place: the first fails every call before call \<open>k\<close> of
  the record and acknowledges from there on, the second fails call \<open>k\<close> only. Both deliver
  \<^verbatim>\<open>0xA5\<close>.\<close>

definition bus_fault_until :: "nat \<Rightarrow> twi_bus" where
  "bus_fault_until k history = (if length history < k then 1 else TWI_None, 0xA5)"

definition bus_fault_at :: "nat \<Rightarrow> twi_bus" where
  "bus_fault_at k history = (if length history = k then 1 else TWI_None, 0xA5)"

section \<open>Properties\<close>

subsection \<open>What the collaborators record\<close>

lemma calls_record_call [simp]: "calls (record_call e s) = calls s @ [e]"
  by (simp add: record_call_def)

lemma identifier_record_call [simp]:
  "at24cm0x_device_identifier (record_call e s) = at24cm0x_device_identifier s"
  by (simp add: record_call_def)

lemmas primitive_defs = twi_start_def twi_stop_def twi_address_def twi_set_def twi_get_def
  at24cm0x_wp_def systick_timer_wait_ms_def

subsection \<open>The address phase\<close>

lemma calls_send_address:
  "calls (snd (at24cm0x_send_address c bus a s)) = calls s @
     [Twi_address (at24cm0x_device_identifier s OR
        (AT24CM0X_ADDRESS_HIGH_MASK c AND ucast (drop_bit 16 a))) (TWI_Write c),
      Twi_set (ucast (drop_bit 8 a)), Twi_set (ucast a)]"
  by (simp add: at24cm0x_send_address_def primitive_defs Let_def)

lemma identifier_send_address [simp]:
  "at24cm0x_device_identifier (snd (at24cm0x_send_address c bus a s)) =
     at24cm0x_device_identifier s"
  by (simp add: at24cm0x_send_address_def primitive_defs Let_def)

text \<open>Truncation to \<^verbatim>\<open>unsigned char\<close> keeps the low eight bits, so the masks of the spec agree
  with the casts of the code.\<close>

lemma ucast_and_0xFF: "(ucast ((x :: ulong) AND 0xFF) :: uchar) = ucast x"
proof -
  have "(0xFF :: ulong) = mask 8" by (simp add: mask_eq_exp_minus_1)
  then have "(ucast (x AND 0xFF) :: uchar) = ucast (x AND mask 8)" by simp
  also have "\<dots> = ucast x" by (rule bit_word_eqI) (auto simp: bit_simps)
  finally show ?thesis .
qed

lemma ucast_and_ucast: "(ucast ((x :: ulong) AND ucast (m :: uchar)) :: uchar) = m AND ucast x"
  by (rule bit_word_eqI) (auto simp: bit_simps)

text \<open>
  Claim C1. For every memory address \<open>a\<close>, the address phase makes three calls, in this
  order: \<^verbatim>\<open>twi_address\<close> with the byte \<^verbatim>\<open>device_select_byte | ((a >> 16) & ADDR_HIGH_MASK)\<close>
  in write direction, \<^verbatim>\<open>twi_set\<close> with \<^verbatim>\<open>(a >> 8) & 0xFF\<close>, and \<^verbatim>\<open>twi_set\<close> with
  \<^verbatim>\<open>a & 0xFF\<close>.
\<close>

theorem C1_send_address_bytes:
  "calls (snd (at24cm0x_send_address c bus a s)) = calls s @
     [Twi_address (at24cm0x_device_identifier s OR
        ucast (drop_bit 16 a AND ucast (AT24CM0X_ADDRESS_HIGH_MASK c))) (TWI_Write c),
      Twi_set (ucast (drop_bit 8 a AND 0xFF)),
      Twi_set (ucast (a AND 0xFF))]"
  by (simp only: calls_send_address ucast_and_0xFF ucast_and_ucast)

text \<open>The example of the spec: address \<^verbatim>\<open>0x1A2B3\<close> on the default build.\<close>

lemma send_address_example:
  "calls (snd (at24cm0x_send_address header_build bus_ok 0x1A2B3 driver_ready)) =
     [Twi_address 0x55 0, Twi_set 0xA2, Twi_set 0xB3]"
proof -
  have bytes: "(ucast (drop_bit 16 (0x1A2B3 :: ulong)) :: uchar) = 1"
    "(ucast (drop_bit 8 (0x1A2B3 :: ulong)) :: uchar) = 0xA2"
    "(ucast (0x1A2B3 :: ulong) :: uchar) = 0xB3"
    by (simp_all add: drop_bit_eq_div)
  show ?thesis
    by (simp add: calls_send_address bytes header_build_def driver_ready_def)
qed

subsection \<open>Validation of the arguments\<close>

text \<open>
  Claim C6. Validation runs first and ends the call with no bus traffic: for every address
  \<open>a \<ge> MEMORY_SIZE\<close>, \<^verbatim>\<open>at24cm0x_write_byte\<close>, \<^verbatim>\<open>at24cm0x_read_byte\<close> and
  \<^verbatim>\<open>at24cm0x_read_sequential\<close> return \<^verbatim>\<open>ADDRESS_ERROR\<close>, and for every page \<open>p \<ge> PAGES\<close>,
  \<^verbatim>\<open>at24cm0x_write_page\<close> returns \<^verbatim>\<open>PAGE_ERROR\<close>; the driver and the record of calls are
  as before the call.
\<close>

theorem C6_validation_first:
  "(a \<ge> AT24CM0X_MEMORY_SIZE c \<longrightarrow>
      at24cm0x_write_byte c bus a d s = Some (AT24CM0X_Status_Address_Error, s) \<and>
      at24cm0x_read_byte c bus a out s = (AT24CM0X_Status_Address_Error, out, s) \<and>
      at24cm0x_read_sequential c bus a n s = (AT24CM0X_Status_Address_Error, [], s)) \<and>
   ((ucast p :: ulong) \<ge> AT24CM0X_PAGES c \<longrightarrow>
      at24cm0x_write_page c bus p data n s = Some (AT24CM0X_Status_Page_Error, s))"
  by (simp add: at24cm0x_write_byte_def at24cm0x_read_byte_def at24cm0x_read_sequential_def
      at24cm0x_write_page_def)

text \<open>The witness: address \<^verbatim>\<open>0x40000\<close> and page 1024 on the default build.\<close>

theorem C6_validation_first_witness:
  "(0x40000 :: ulong) \<ge> AT24CM0X_MEMORY_SIZE header_build \<and>
   at24cm0x_write_byte header_build bus_ok 0x40000 0x7E driver_ready =
     Some (AT24CM0X_Status_Address_Error, driver_ready) \<and>
   at24cm0x_read_byte header_build bus_ok 0x40000 0 driver_ready =
     (AT24CM0X_Status_Address_Error, 0, driver_ready) \<and>
   at24cm0x_read_sequential header_build bus_ok 0x40000 4 driver_ready =
     (AT24CM0X_Status_Address_Error, [], driver_ready) \<and>
   (ucast (1024 :: uint) :: ulong) \<ge> AT24CM0X_PAGES header_build \<and>
   at24cm0x_write_page header_build bus_ok 1024 (\<lambda>i. 0x11) 4 driver_ready =
     Some (AT24CM0X_Status_Page_Error, driver_ready)"
  using C6_validation_first [where c = header_build and a = "0x40000" and bus = bus_ok
      and d = "0x7E" and s = driver_ready and out = 0 and n = 4 and p = 1024
      and data = "\<lambda>i. 0x11"]
  by (simp add: header_build_def)

text \<open>
  Claim C7. For every valid page index, \<^verbatim>\<open>at24cm0x_write_page\<close> returns \<^verbatim>\<open>SIZE_ERROR\<close>
  exactly when \<open>n = 0\<close> or \<open>n \<ge> PAGE_SIZE\<close> (a full page is rejected), and then without
  any call: the driver and the record of calls are as before.
\<close>

theorem C7_size_error:
  assumes "(ucast p :: ulong) < AT24CM0X_PAGES c"
  shows "(n = 0 \<or> (ucast n :: ulong) \<ge> AT24CM0X_PAGE_SIZE c \<longrightarrow>
            at24cm0x_write_page c bus p data n s = Some (AT24CM0X_Status_Size_Error, s)) \<and>
         (\<not> (n = 0 \<or> (ucast n :: ulong) \<ge> AT24CM0X_PAGE_SIZE c) \<longrightarrow>
            (\<forall>s'. at24cm0x_write_page c bus p data n s \<noteq> Some (AT24CM0X_Status_Size_Error, s')))"
  using assms
  by (auto simp: at24cm0x_write_page_def Let_def split_def bind_eq_Some_conv split: if_splits)

text \<open>The witness: on page 2 of the default build, 256 bytes are rejected and 3 bytes are not.\<close>

theorem C7_size_error_witness:
  "(ucast (2 :: uint) :: ulong) < AT24CM0X_PAGES header_build \<and>
   (ucast (256 :: uint) :: ulong) \<ge> AT24CM0X_PAGE_SIZE header_build \<and>
   at24cm0x_write_page header_build bus_ok 2 (\<lambda>i. 0x11) 256 driver_ready =
     Some (AT24CM0X_Status_Size_Error, driver_ready) \<and>
   (3 :: uint) \<noteq> 0 \<and> (ucast (3 :: uint) :: ulong) < AT24CM0X_PAGE_SIZE header_build \<and>
   (\<forall>s'. at24cm0x_write_page header_build bus_ok 2 (\<lambda>i. 0x11) 3 driver_ready \<noteq>
     Some (AT24CM0X_Status_Size_Error, s'))"
proof -
  have p: "(ucast (2 :: uint) :: ulong) < AT24CM0X_PAGES header_build"
    by (simp add: header_build_def)
  show ?thesis
    using p C7_size_error [OF p, of 256 bus_ok "\<lambda>i. 0x11" driver_ready]
      C7_size_error [OF p, of 3 bus_ok "\<lambda>i. 0x11" driver_ready]
    by (simp add: header_build_def)
qed

subsection \<open>Sequential read\<close>

text \<open>A counter below the size does not wrap when it steps, and \<open>size - 1\<close> does not wrap
  when a counter is below the size.\<close>

lemma unat_uint_succ: "(i :: uint) < n \<Longrightarrow> unat (i + 1) = Suc (unat i)"
proof -
  assume "i < n"
  then have "unat i < unat n" by (simp add: word_less_nat_alt)
  moreover have "unat n < 2 ^ 16" using unsigned_less [of n, where 'a = nat] by simp
  ultimately have "unat i + 1 < 2 ^ 16" by simp
  then show ?thesis by (simp add: unat_word_ariths)
qed

lemma last_index_uint: "(i :: uint) < n \<Longrightarrow> (n - 1 \<le> i) = (unat n - 1 \<le> unat i)"
proof -
  assume "i < n"
  then have "n \<noteq> 0" by auto
  then have "unat (n - 1) = unat n - 1" by (simp add: unat_minus_one)
  then show ?thesis by (simp add: word_le_nat_alt)
qed

lemma record_call_twice [simp]:
  "record_call e (s\<lparr>calls := xs\<rparr>) = s\<lparr>calls := xs @ [e]\<rparr>"
  by (simp add: record_call_def)

lemma read_sequential_loop_driver:
  "snd (snd (at24cm0x_read_sequential_loop c bus n i (e, d, s))) =
     s\<lparr>calls := calls s @ map (\<lambda>j. Twi_get (if unat n - 1 \<le> j then TWI_NACK c else TWI_Ack c)) [unat i ..< unat n]\<rparr>"
proof (induction c bus n i "(e, d, s)" arbitrary: e d s rule: at24cm0x_read_sequential_loop.induct)
  case (1 c bus n i e d s)
  show ?case
  proof (cases "i < n")
    case True
    then have lt: "unat i < unat n" by (simp add: word_less_nat_alt)
    let ?ack = "if n - 1 \<le> i then TWI_NACK c else TWI_Ack c"
    obtain e' d' s' where g: "twi_get bus ?ack s = (e', d', s')"
      by (cases "twi_get bus ?ack s") auto
    then have s': "s' = record_call (Twi_get ?ack) s"
      by (auto simp: twi_get_def Let_def)
    have "snd (snd (at24cm0x_read_sequential_loop c bus n (i + 1) (e OR e', d @ [d'], s'))) =
        s'\<lparr>calls := calls s' @ map (\<lambda>j. Twi_get (if unat n - 1 \<le> j then TWI_NACK c else TWI_Ack c)) [unat (i + 1) ..< unat n]\<rparr>"
      using "1.hyps" [OF True refl g [symmetric] refl refl] .
    moreover have "at24cm0x_read_sequential_loop c bus n i (e, d, s) =
        at24cm0x_read_sequential_loop c bus n (i + 1) (e OR e', d @ [d'], s')"
      using True g by (subst at24cm0x_read_sequential_loop.simps) simp
    moreover have "[unat i ..< unat n] = unat i # [Suc (unat i) ..< unat n]"
      using lt by (simp add: upt_conv_Cons)
    moreover have "(n - 1 \<le> i) = (unat n - 1 \<le> unat i)"
      by (rule last_index_uint [OF True])
    ultimately show ?thesis
      using unat_uint_succ [OF True] s' by (simp add: record_call_def)
  next
    case False
    then have "\<not> unat i < unat n" by (simp add: word_less_nat_alt)
    with False show ?thesis
      by (subst at24cm0x_read_sequential_loop.simps) simp
  qed
qed


lemma send_address_driver:
  "snd (at24cm0x_send_address c bus a s) = s\<lparr>calls := calls s @
     [Twi_address (at24cm0x_device_identifier s OR
        (AT24CM0X_ADDRESS_HIGH_MASK c AND ucast (drop_bit 16 a))) (TWI_Write c),
      Twi_set (ucast (drop_bit 8 a)), Twi_set (ucast a)]\<rparr>"
  by (simp add: at24cm0x_send_address_def primitive_defs Let_def record_call_def)

lemma map_last_differs:
  "0 < m \<Longrightarrow> map (\<lambda>j. if m - 1 \<le> j then x else y) [0..<m] = replicate (m - 1) y @ [x]"
proof -
  assume "0 < m"
  then obtain k where m: "m = Suc k" by (cases m) auto
  have "map (\<lambda>j. if k \<le> j then x else y) [0..<k] = map (\<lambda>j. y) [0..<k]"
    by (rule map_cong) auto
  also have "\<dots> = replicate k y" by (simp add: map_replicate_const)
  finally show ?thesis using m by simp
qed

text \<open>
  Claim C2. For every valid address and every size \<open>n > 0\<close>, \<^verbatim>\<open>at24cm0x_read_sequential\<close>
  positions the chip, addresses it in read direction and then makes exactly \<open>n\<close>
  receive calls: the first \<open>n - 1\<close> with \<^verbatim>\<open>TWI_Ack\<close>, the last with \<^verbatim>\<open>TWI_NACK\<close>, followed
  by the stop condition.
\<close>

theorem C2_read_sequential_calls:
  assumes "a < AT24CM0X_MEMORY_SIZE c" and "n \<noteq> 0"
  shows "calls (snd (snd (at24cm0x_read_sequential c bus a n s))) = calls s @
     [Twi_start,
      Twi_address (at24cm0x_device_identifier s OR
        (AT24CM0X_ADDRESS_HIGH_MASK c AND ucast (drop_bit 16 a))) (TWI_Write c),
      Twi_set (ucast (drop_bit 8 a)), Twi_set (ucast a),
      Twi_stop,
      Twi_start,
      Twi_address (at24cm0x_device_identifier s) (TWI_Read c)] @
     replicate (unat n - 1) (Twi_get (TWI_Ack c)) @
     [Twi_get (TWI_NACK c), Twi_stop]"
proof -
  have pos: "0 < unat n" using assms(2) by (simp add: unat_gt_0)
  have gets: "map (\<lambda>j. Twi_get (if unat n - 1 \<le> j then TWI_NACK c else TWI_Ack c)) [0..<unat n] =
      replicate (unat n - 1) (Twi_get (TWI_Ack c)) @ [Twi_get (TWI_NACK c)]"
    using map_last_differs [OF pos, of "Twi_get (TWI_NACK c)" "Twi_get (TWI_Ack c)"]
    by (simp add: if_distrib [of Twi_get])
  have valid: "\<not> AT24CM0X_MEMORY_SIZE c \<le> a" using assms(1) by (simp add: not_le)
  show ?thesis
    using assms(2) valid
    by (simp add: at24cm0x_read_sequential_def Let_def split_def primitive_defs
        read_sequential_loop_driver send_address_driver gets [unfolded One_nat_def]
        record_call_def)
qed

text \<open>The witness: four bytes from address \<^verbatim>\<open>0x100\<close> of the default build.\<close>

theorem C2_read_sequential_calls_witness:
  "(0x100 :: ulong) < AT24CM0X_MEMORY_SIZE header_build \<and> (4 :: uint) \<noteq> 0 \<and>
   calls (snd (snd (at24cm0x_read_sequential header_build bus_ok 0x100 4 driver_ready))) =
     [Twi_start, Twi_address 0x54 0, Twi_set 0x01, Twi_set 0x00, Twi_stop,
      Twi_start, Twi_address 0x54 1,
      Twi_get 3, Twi_get 3, Twi_get 3, Twi_get 0, Twi_stop]"
proof -
  have valid: "(0x100 :: ulong) < AT24CM0X_MEMORY_SIZE header_build"
    by (simp add: header_build_def)
  have size: "(4 :: uint) \<noteq> 0" by simp
  have three: "replicate (unat (4 :: uint) - 1) x = [x, x, x]" for x :: call
    by (simp add: numeral_3_eq_3)
  have bytes: "(0x54 :: uchar) OR (3 AND ucast (drop_bit 16 (0x100 :: ulong))) = 0x54"
    "(ucast (drop_bit 8 (0x100 :: ulong)) :: uchar) = 1" "(256 :: uchar) = 0"
    by (simp_all add: drop_bit_eq_div)
  show ?thesis
    using valid C2_read_sequential_calls [OF valid size, of bus_ok driver_ready]
    by (simp add: header_build_def driver_ready_def three bytes numeral_3_eq_3)
qed

subsection \<open>Acknowledge polling\<close>

text \<open>One round of the polling loop: start and address in write direction.\<close>

lemma polling_round:
  "at24cm0x_write_acknowledge_polling c bus s =
     (let s2 = s\<lparr>calls := calls s @
                 [Twi_start, Twi_address (at24cm0x_device_identifier s) (TWI_Write c)]\<rparr>
      in if fst (bus (calls s2)) = TWI_Ack c
         then at24cm0x_write_acknowledge_polling c bus s2
         else Some (s2\<lparr>calls := calls s2 @ [Twi_stop]\<rparr>))"
  by (subst at24cm0x_write_acknowledge_polling.simps)
     (simp add: primitive_defs Let_def record_call_def)

lemma polling_rounds:
  assumes "\<forall>j<k. fst (bus (calls s @ concat (replicate (Suc j)
              [Twi_start, Twi_address (at24cm0x_device_identifier s) (TWI_Write c)]))) = TWI_Ack c"
  shows "at24cm0x_write_acknowledge_polling c bus s =
     at24cm0x_write_acknowledge_polling c bus (s\<lparr>calls := calls s @ concat (replicate k
              [Twi_start, Twi_address (at24cm0x_device_identifier s) (TWI_Write c)])\<rparr>)"
  using assms
proof (induction k)
  case 0
  then show ?case by simp
next
  case (Suc k)
  let ?r = "[Twi_start, Twi_address (at24cm0x_device_identifier s) (TWI_Write c)]"
  let ?sk = "s\<lparr>calls := calls s @ concat (replicate k ?r)\<rparr>"
  have "at24cm0x_write_acknowledge_polling c bus s = at24cm0x_write_acknowledge_polling c bus ?sk"
    using Suc by simp
  also have "\<dots> = at24cm0x_write_acknowledge_polling c bus
      (s\<lparr>calls := calls s @ concat (replicate (Suc k) ?r)\<rparr>)"
  proof -
    have "replicate (Suc k) ?r = replicate k ?r @ [?r]"
      by (simp add: replicate_append_same)
    then have "concat (replicate (Suc k) ?r) = concat (replicate k ?r) @ ?r"
      by (simp only: concat_append) simp
    moreover have "fst (bus (calls s @ concat (replicate (Suc k) ?r))) = TWI_Ack c"
      using Suc.prems by blast
    ultimately show ?thesis
      by (subst polling_round) (simp add: Let_def)
  qed
  finally show ?case .
qed


lemma polling_stops:
  assumes "\<forall>j<k. fst (bus (calls s @ concat (replicate (Suc j)
              [Twi_start, Twi_address (at24cm0x_device_identifier s) (TWI_Write c)]))) = TWI_Ack c"
    and "fst (bus (calls s @ concat (replicate (Suc k)
              [Twi_start, Twi_address (at24cm0x_device_identifier s) (TWI_Write c)]))) \<noteq> TWI_Ack c"
  shows "at24cm0x_write_acknowledge_polling c bus s =
     Some (s\<lparr>calls := calls s @ concat (replicate (Suc k)
              [Twi_start, Twi_address (at24cm0x_device_identifier s) (TWI_Write c)]) @
              [Twi_stop]\<rparr>)"
proof -
  let ?r = "[Twi_start, Twi_address (at24cm0x_device_identifier s) (TWI_Write c)]"
  let ?sk = "s\<lparr>calls := calls s @ concat (replicate k ?r)\<rparr>"
  have "replicate (Suc k) ?r = replicate k ?r @ [?r]"
    by (simp add: replicate_append_same)
  then have unfold: "concat (replicate (Suc k) ?r) = concat (replicate k ?r) @ ?r"
    by (simp only: concat_append) simp
  have "at24cm0x_write_acknowledge_polling c bus s = at24cm0x_write_acknowledge_polling c bus ?sk"
    using assms(1) by (rule polling_rounds)
  also have "\<dots> = Some (s\<lparr>calls := calls s @ concat (replicate (Suc k) ?r) @ [Twi_stop]\<rparr>)"
    using assms(2) unfold by (subst polling_round) (simp add: Let_def)
  finally show ?thesis .
qed

lemma polling_returned:
  assumes "at24cm0x_write_acknowledge_polling c bus s = Some s'"
  shows "\<exists>k. (\<forall>j<k. fst (bus (calls s @ concat (replicate (Suc j)
              [Twi_start, Twi_address (at24cm0x_device_identifier s) (TWI_Write c)]))) = TWI_Ack c) \<and>
           fst (bus (calls s @ concat (replicate (Suc k)
              [Twi_start, Twi_address (at24cm0x_device_identifier s) (TWI_Write c)]))) \<noteq> TWI_Ack c \<and>
           s' = s\<lparr>calls := calls s @ concat (replicate (Suc k)
              [Twi_start, Twi_address (at24cm0x_device_identifier s) (TWI_Write c)]) @
              [Twi_stop]\<rparr>"
  using assms
proof (induction c bus s s' rule: at24cm0x_write_acknowledge_polling.raw_induct [rotated 1, consumes 1])
  case (1 polling c bus s s')
  let ?r = "[Twi_start, Twi_address (at24cm0x_device_identifier s) (TWI_Write c)]"
  let ?s2 = "s\<lparr>calls := calls s @ ?r\<rparr>"
  have body: "(if fst (bus (calls ?s2)) = TWI_Ack c then polling c bus ?s2
      else Some (?s2\<lparr>calls := calls ?s2 @ [Twi_stop]\<rparr>)) = Some s'"
    using "1.hyps" by (simp add: primitive_defs Let_def record_call_def cong: if_cong)
  show ?case
  proof (cases "fst (bus (calls ?s2)) = TWI_Ack c")
    case False
    with body have "s' = ?s2\<lparr>calls := calls ?s2 @ [Twi_stop]\<rparr>" by simp
    with False show ?thesis by (intro exI [of _ 0]) simp
  next
    case True
    with body have "polling c bus ?s2 = Some s'" by simp
    from "1.IH" [OF this] obtain k where
      nacks: "\<forall>j<k. fst (bus (calls ?s2 @ concat (replicate (Suc j) ?r))) = TWI_Ack c" and
      ack: "fst (bus (calls ?s2 @ concat (replicate (Suc k) ?r))) \<noteq> TWI_Ack c" and
      s': "s' = ?s2\<lparr>calls := calls ?s2 @ concat (replicate (Suc k) ?r) @ [Twi_stop]\<rparr>"
      by auto
    have "\<forall>j<Suc k. fst (bus (calls s @ concat (replicate (Suc j) ?r))) = TWI_Ack c"
    proof (intro allI impI)
      fix j assume "j < Suc k"
      show "fst (bus (calls s @ concat (replicate (Suc j) ?r))) = TWI_Ack c"
      proof (cases j)
        case 0
        with True show ?thesis by simp
      next
        case (Suc j')
        with \<open>j < Suc k\<close> nacks have "fst (bus (calls ?s2 @ concat (replicate (Suc j') ?r))) = TWI_Ack c"
          by simp
        with Suc show ?thesis by simp
      qed
    qed
    moreover have "fst (bus (calls s @ concat (replicate (Suc (Suc k)) ?r))) \<noteq> TWI_Ack c"
      using ack by simp
    moreover have "s' = s\<lparr>calls := calls s @ concat (replicate (Suc (Suc k)) ?r) @ [Twi_stop]\<rparr>"
      using s' by simp
    ultimately show ?thesis by (intro exI [of _ "Suc k"]) blast
  qed
qed

lemma polling_never_returns:
  assumes "\<forall>j. fst (bus (calls s @ concat (replicate (Suc j)
              [Twi_start, Twi_address (at24cm0x_device_identifier s) (TWI_Write c)]))) = TWI_Ack c"
  shows "at24cm0x_write_acknowledge_polling c bus s = None"
proof (cases "at24cm0x_write_acknowledge_polling c bus s")
  case None
  then show ?thesis .
next
  case (Some s')
  from polling_returned [OF this] assms show ?thesis by blast
qed

text \<open>
  Claim C4. The polling loop issues start and addresses the device in write direction,
  again and again; it repeats while the device answers NACK and ends, with a stop
  condition, as soon as the device answers ACK. The reply of an acknowledging device is
  \<^verbatim>\<open>TWI_None\<close>, the value that every transaction of the driver takes for success; the reply
  the loop repeats on is \<^verbatim>\<open>TWI_Ack\<close>, the acknowledge fault of the HAL, which is taken to
  differ from \<^verbatim>\<open>TWI_None\<close>. After \<open>k\<close> refused polls and one acknowledged poll the loop has
  made \<open>k + 1\<close> rounds and the stop.
\<close>

theorem C4_acknowledge_polling:
  assumes "TWI_Ack c \<noteq> TWI_None"
    and "\<forall>j<k. fst (bus (calls s @ concat (replicate (Suc j)
              [Twi_start, Twi_address (at24cm0x_device_identifier s) (TWI_Write c)]))) = TWI_Ack c"
    and "fst (bus (calls s @ concat (replicate (Suc k)
              [Twi_start, Twi_address (at24cm0x_device_identifier s) (TWI_Write c)]))) = TWI_None"
  shows "at24cm0x_write_acknowledge_polling c bus s =
     Some (s\<lparr>calls := calls s @ concat (replicate (Suc k)
              [Twi_start, Twi_address (at24cm0x_device_identifier s) (TWI_Write c)]) @
              [Twi_stop]\<rparr>)"
  using assms(2) by (rule polling_stops) (use assms(1,3) in simp)

text \<open>The witness: two refused polls, then an acknowledged one.\<close>

theorem C4_acknowledge_polling_witness:
  "TWI_Ack header_build \<noteq> TWI_None \<and>
   fst (bus_busy_twice (calls driver_ready @ concat (replicate (Suc 0)
      [Twi_start, Twi_address (at24cm0x_device_identifier driver_ready) (TWI_Write header_build)]))) =
      TWI_Ack header_build \<and>
   fst (bus_busy_twice (calls driver_ready @ concat (replicate (Suc 1)
      [Twi_start, Twi_address (at24cm0x_device_identifier driver_ready) (TWI_Write header_build)]))) =
      TWI_Ack header_build \<and>
   fst (bus_busy_twice (calls driver_ready @ concat (replicate (Suc 2)
      [Twi_start, Twi_address (at24cm0x_device_identifier driver_ready) (TWI_Write header_build)]))) =
      TWI_None \<and>
   at24cm0x_write_acknowledge_polling header_build bus_busy_twice driver_ready =
     Some \<lparr>at24cm0x_device_identifier = 0x54, calls =
       [Twi_start, Twi_address 0x54 0, Twi_start, Twi_address 0x54 0,
        Twi_start, Twi_address 0x54 0, Twi_stop]\<rparr>"
proof -
  let ?r = "[Twi_start, Twi_address (at24cm0x_device_identifier driver_ready) (TWI_Write header_build)]"
  have len: "length (concat (replicate n [x, y])) = 2 * n" for n and x y :: call
    by (induction n) simp_all
  have code: "TWI_Ack header_build \<noteq> TWI_None"
    by (simp add: header_build_def TWI_None_def)
  have busy: "\<forall>j<2. fst (bus_busy_twice (calls driver_ready @ concat (replicate (Suc j) ?r))) =
      TWI_Ack header_build"
    by (simp add: bus_busy_twice_def len driver_ready_def header_build_def del: replicate_Suc replicate.simps concat.simps)
  have ready: "fst (bus_busy_twice (calls driver_ready @ concat (replicate (Suc 2) ?r))) = TWI_None"
    by (simp add: bus_busy_twice_def len driver_ready_def del: replicate_Suc replicate.simps concat.simps)
  have first: "fst (bus_busy_twice (calls driver_ready @ concat (replicate (Suc 0) ?r))) =
      TWI_Ack header_build"
    using busy [rule_format, of 0] by simp
  have second: "fst (bus_busy_twice (calls driver_ready @ concat (replicate (Suc 1) ?r))) =
      TWI_Ack header_build"
    using busy [rule_format, of 1] by simp
  have result: "at24cm0x_write_acknowledge_polling header_build bus_busy_twice driver_ready =
     Some \<lparr>at24cm0x_device_identifier = 0x54, calls =
       [Twi_start, Twi_address 0x54 0, Twi_start, Twi_address 0x54 0,
        Twi_start, Twi_address 0x54 0, Twi_stop]\<rparr>"
    using C4_acknowledge_polling [OF code busy ready]
    by (simp add: driver_ready_def header_build_def numeral_2_eq_2)
  from code first second ready result show ?thesis by blast
qed

subsection \<open>Calls to the write-protect pin\<close>

lemma wp_modes_append [simp]: "wp_modes (xs @ ys) = wp_modes xs @ wp_modes ys"
  by (induction xs rule: wp_modes.induct) simp_all

lemma wp_modes_rounds [simp]:
  "wp_modes (concat (replicate k [Twi_start, Twi_address x w])) = []"
  by (induction k) simp_all

lemma wp_modes_sets [simp]: "wp_modes (map (\<lambda>j. Twi_set (f j)) js) = []"
  by (induction js) simp_all

lemma wp_modes_gets [simp]: "wp_modes (map (\<lambda>j. Twi_get (f j)) js) = []"
  by (induction js) simp_all

subsection \<open>The driver after each operation\<close>

text \<open>Each operation leaves the driver as it found it, but for the calls it has added.\<close>

lemma write_page_loop_driver:
  "snd (at24cm0x_write_page_loop bus data n i (e, s)) =
     s\<lparr>calls := calls s @ map (\<lambda>j. Twi_set (data j)) [unat i ..< unat n]\<rparr>"
proof (induction bus data n i "(e, s)" arbitrary: e s rule: at24cm0x_write_page_loop.induct)
  case (1 bus data n i e s)
  show ?case
  proof (cases "i < n")
    case True
    then have lt: "unat i < unat n" by (simp add: word_less_nat_alt)
    obtain e' s' where t: "twi_set bus (data (unat i)) s = (e', s')"
      by (cases "twi_set bus (data (unat i)) s") auto
    then have s': "s' = record_call (Twi_set (data (unat i))) s"
      by (auto simp: twi_set_def Let_def)
    have "snd (at24cm0x_write_page_loop bus data n (i + 1) (e OR e', s')) =
        s'\<lparr>calls := calls s' @ map (\<lambda>j. Twi_set (data j)) [unat (i + 1) ..< unat n]\<rparr>"
      using "1.hyps" [OF True t [symmetric] refl] .
    moreover have "at24cm0x_write_page_loop bus data n i (e, s) =
        at24cm0x_write_page_loop bus data n (i + 1) (e OR e', s')"
      using True t by (subst at24cm0x_write_page_loop.simps) simp
    moreover have "[unat i ..< unat n] = unat i # [Suc (unat i) ..< unat n]"
      using lt by (simp add: upt_conv_Cons)
    ultimately show ?thesis
      using unat_uint_succ [OF True] s' by (simp add: record_call_def)
  next
    case False
    then have "\<not> unat i < unat n" by (simp add: word_less_nat_alt)
    with False show ?thesis
      by (subst at24cm0x_write_page_loop.simps) simp
  qed
qed

lemma write_cycle_wait_returned:
  assumes "write_cycle_wait c bus s = Some s'"
  shows "\<exists>evs. s' = s\<lparr>calls := calls s @ evs\<rparr> \<and> wp_modes evs = []"
proof (cases "AT24CM0X_WRITE_ACKNOWLEDGE_POLLING c")
  case True
  with assms have "at24cm0x_write_acknowledge_polling c bus s = Some s'"
    by (simp add: write_cycle_wait_def)
  from polling_returned [OF this] obtain k where
    "s' = s\<lparr>calls := calls s @ concat (replicate (Suc k)
        [Twi_start, Twi_address (at24cm0x_device_identifier s) (TWI_Write c)]) @ [Twi_stop]\<rparr>"
    by blast
  then show ?thesis
    by (intro exI [of _ "concat (replicate (Suc k)
        [Twi_start, Twi_address (at24cm0x_device_identifier s) (TWI_Write c)]) @ [Twi_stop]"])
      (simp del: replicate_Suc replicate.simps)
next
  case False
  with assms have "s' = s\<lparr>calls := calls s @ [Systick_timer_wait_ms (AT24CM0X_WRITE_CYCLE_MS c)]\<rparr>"
    by (auto simp: write_cycle_wait_def primitive_defs record_call_def)
  then show ?thesis
    by (intro exI [of _ "[Systick_timer_wait_ms (AT24CM0X_WRITE_CYCLE_MS c)]"]) simp
qed

lemma read_byte_driver:
  "snd (snd (at24cm0x_read_byte c bus a out s)) =
     (if AT24CM0X_MEMORY_SIZE c \<le> a then s
      else s\<lparr>calls := calls s @
        [Twi_start,
         Twi_address (at24cm0x_device_identifier s OR
           (AT24CM0X_ADDRESS_HIGH_MASK c AND ucast (drop_bit 16 a))) (TWI_Write c),
         Twi_set (ucast (drop_bit 8 a)), Twi_set (ucast a),
         Twi_stop,
         Twi_start,
         Twi_address (at24cm0x_device_identifier s) (TWI_Read c),
         Twi_get (TWI_NACK c),
         Twi_stop]\<rparr>)"
  by (simp add: at24cm0x_read_byte_def Let_def split_def primitive_defs send_address_driver
      record_call_def)

lemma read_current_byte_driver:
  "snd (snd (at24cm0x_read_current_byte c bus out s)) =
     s\<lparr>calls := calls s @
        [Twi_start,
         Twi_address (at24cm0x_device_identifier s) (TWI_Read c),
         Twi_get (TWI_NACK c),
         Twi_stop]\<rparr>"
  by (simp add: at24cm0x_read_current_byte_def Let_def split_def primitive_defs record_call_def)

lemma read_sequential_driver:
  "snd (snd (at24cm0x_read_sequential c bus a n s)) =
     (if AT24CM0X_MEMORY_SIZE c \<le> a \<or> n = 0 then s
      else s\<lparr>calls := calls s @
        [Twi_start,
         Twi_address (at24cm0x_device_identifier s OR
           (AT24CM0X_ADDRESS_HIGH_MASK c AND ucast (drop_bit 16 a))) (TWI_Write c),
         Twi_set (ucast (drop_bit 8 a)), Twi_set (ucast a),
         Twi_stop,
         Twi_start,
         Twi_address (at24cm0x_device_identifier s) (TWI_Read c)] @
        map (\<lambda>j. Twi_get (if unat n - 1 \<le> j then TWI_NACK c else TWI_Ack c)) [0 ..< unat n] @
        [Twi_stop]\<rparr>)"
  by (simp add: at24cm0x_read_sequential_def Let_def split_def primitive_defs
      read_sequential_loop_driver send_address_driver record_call_def)


lemma write_cycle_wait_keeps:
  assumes "write_cycle_wait c bus s = Some s'"
  shows "at24cm0x_device_identifier s' = at24cm0x_device_identifier s \<and>
         wp_modes (calls s') = wp_modes (calls s)"
  using write_cycle_wait_returned [OF assms] by auto

lemma write_byte_returned:
  assumes "at24cm0x_write_byte c bus a d s = Some (st, s')"
  shows "at24cm0x_device_identifier s' = at24cm0x_device_identifier s \<and>
         wp_modes (calls s') = wp_modes (calls s) @
           (if AT24CM0X_MEMORY_SIZE c \<le> a \<or> \<not> AT24CM0X_WP_CONTROL_EN c then []
            else [AT24CM0X_WP_Mode_Disabled, AT24CM0X_WP_Mode_Enabled])"
  using assms
  by (auto simp: at24cm0x_write_byte_def Let_def split_def bind_eq_Some_conv primitive_defs
      send_address_driver read_byte_driver record_call_def
      dest!: write_cycle_wait_keeps split: if_splits)

lemma write_page_returned:
  assumes "at24cm0x_write_page c bus p data n s = Some (st, s')"
  shows "at24cm0x_device_identifier s' = at24cm0x_device_identifier s \<and>
         wp_modes (calls s') = wp_modes (calls s) @
           (if AT24CM0X_PAGES c \<le> ucast p \<or> n = 0 \<or> AT24CM0X_PAGE_SIZE c \<le> ucast n \<or>
               \<not> AT24CM0X_WP_CONTROL_EN c then []
            else [AT24CM0X_WP_Mode_Disabled, AT24CM0X_WP_Mode_Enabled])"
  using assms
  by (auto simp: at24cm0x_write_page_def Let_def split_def bind_eq_Some_conv primitive_defs
      send_address_driver read_sequential_driver write_page_loop_driver record_call_def
      dest!: write_cycle_wait_keeps split: if_splits)


subsection \<open>The device identifier\<close>

lemma push_bit_and_low_mask: "push_bit k (y :: uchar) AND mask k = 0"
  by (rule bit_word_eqI) (auto simp: bit_simps)

lemma high_bits_2mbit:
  "((0x50 :: uchar) OR (x AND 0x04)) AND 0x03 = 0"
  "((0x50 :: uchar) OR push_bit 2 y) AND 0x03 = 0"
proof -
  have m: "(3 :: uchar) = mask 2" by (simp add: mask_eq_exp_minus_1)
  have "((0x50 :: uchar) OR (x AND 0x04)) AND 0x03 = (0x50 AND 0x03) OR (x AND (0x04 AND 0x03))"
    by (simp only: word_ao_dist word_bw_assocs)
  then show "((0x50 :: uchar) OR (x AND 0x04)) AND 0x03 = 0" by simp
  have "((0x50 :: uchar) OR push_bit 2 y) AND 0x03 = (0x50 AND 0x03) OR (push_bit 2 y AND mask 2)"
    by (simp only: word_ao_dist m)
  then show "((0x50 :: uchar) OR push_bit 2 y) AND 0x03 = 0"
    by (simp only: push_bit_and_low_mask) simp
qed

lemma high_bits_1mbit:
  "((0x50 :: uchar) OR (x AND 0x06)) AND 0x01 = 0"
  "((0x50 :: uchar) OR push_bit 2 y OR push_bit 1 z) AND 0x01 = 0"
proof -
  have m: "(1 :: uchar) = mask 1" by (simp add: mask_eq_exp_minus_1)
  have "((0x50 :: uchar) OR (x AND 0x06)) AND 0x01 = (0x50 AND 0x01) OR (x AND (0x06 AND 0x01))"
    by (simp only: word_ao_dist word_bw_assocs)
  then show "((0x50 :: uchar) OR (x AND 0x06)) AND 0x01 = 0" by simp
  have "push_bit 2 y = push_bit 1 (push_bit 1 y)" by (simp add: push_bit_eq_mult)
  then have "((0x50 :: uchar) OR push_bit 2 y OR push_bit 1 z) AND 0x01 =
      (0x50 AND 0x01) OR (push_bit 1 (push_bit 1 y) AND mask 1) OR (push_bit 1 z AND mask 1)"
    by (simp only: word_ao_dist m)
  then show "((0x50 :: uchar) OR push_bit 2 y OR push_bit 1 z) AND 0x01 = 0"
    by (simp only: push_bit_and_low_mask) simp
qed


subsection \<open>Write protection\<close>

text \<open>With the fixed delay both write functions return, whatever the bus does; with
  polling they return when the loop does (\<open>polling_stops\<close>, \<open>polling_never_returns\<close>).\<close>

lemma write_byte_returns:
  assumes "\<not> AT24CM0X_WRITE_ACKNOWLEDGE_POLLING c"
  shows "\<exists>st s'. at24cm0x_write_byte c bus a d s = Some (st, s')"
  using assms
  by (simp add: at24cm0x_write_byte_def write_cycle_wait_def Let_def split_def)

lemma write_page_returns:
  assumes "\<not> AT24CM0X_WRITE_ACKNOWLEDGE_POLLING c"
  shows "\<exists>st s'. at24cm0x_write_page c bus p data n s = Some (st, s')"
  using assms
  by (simp add: at24cm0x_write_page_def write_cycle_wait_def Let_def split_def)

text \<open>
  Claim C8. With write-protect control compiled in, every call of \<^verbatim>\<open>at24cm0x_write_byte\<close>
  and of \<^verbatim>\<open>at24cm0x_write_page\<close> that returns has driven the pin either not at all (the
  arguments were rejected) or to \<^verbatim>\<open>DISABLED\<close> and then back to \<^verbatim>\<open>ENABLED\<close>, whatever status
  it returns: no exit leaves the device unlocked.
\<close>

theorem C8_write_protect_restored:
  assumes "AT24CM0X_WP_CONTROL_EN c"
  shows "(at24cm0x_write_byte c bus a d s = Some (st, s') \<longrightarrow>
            wp_modes (calls s') = wp_modes (calls s) @
              (if AT24CM0X_MEMORY_SIZE c \<le> a then []
               else [AT24CM0X_WP_Mode_Disabled, AT24CM0X_WP_Mode_Enabled])) \<and>
         (at24cm0x_write_page c bus p data n s = Some (st', s'') \<longrightarrow>
            wp_modes (calls s'') = wp_modes (calls s) @
              (if AT24CM0X_PAGES c \<le> ucast p \<or> n = 0 \<or> AT24CM0X_PAGE_SIZE c \<le> ucast n then []
               else [AT24CM0X_WP_Mode_Disabled, AT24CM0X_WP_Mode_Enabled]))"
proof (intro conjI impI)
  assume "at24cm0x_write_byte c bus a d s = Some (st, s')"
  from write_byte_returned [OF this] assms
  show "wp_modes (calls s') = wp_modes (calls s) @
      (if AT24CM0X_MEMORY_SIZE c \<le> a then []
       else [AT24CM0X_WP_Mode_Disabled, AT24CM0X_WP_Mode_Enabled])"
    by simp
next
  assume "at24cm0x_write_page c bus p data n s = Some (st', s'')"
  from write_page_returned [OF this] assms
  show "wp_modes (calls s'') = wp_modes (calls s) @
      (if AT24CM0X_PAGES c \<le> ucast p \<or> n = 0 \<or> AT24CM0X_PAGE_SIZE c \<le> ucast n then []
       else [AT24CM0X_WP_Mode_Disabled, AT24CM0X_WP_Mode_Enabled])"
    by simp
qed

text \<open>Both write functions on a bus where every call fails.\<close>

lemma write_byte_fault_example:
  "at24cm0x_write_byte wp_build bus_fault 0 0x7E driver_ready =
     Some (AT24CM0X_Status_TWI_Error,
       \<lparr>at24cm0x_device_identifier = 0x54, calls =
         [At24cm0x_wp AT24CM0X_WP_Mode_Disabled,
          Twi_start, Twi_address 0x54 0, Twi_set 0, Twi_set 0, Twi_set 0x7E, Twi_stop,
          Systick_timer_wait_ms 10,
          At24cm0x_wp AT24CM0X_WP_Mode_Enabled]\<rparr>)"
  by (simp add: at24cm0x_write_byte_def at24cm0x_send_address_def write_cycle_wait_def
      primitive_defs record_call_def wp_build_def header_build_def bus_fault_def
      driver_ready_def TWI_None_def Let_def)

lemma write_page_fault_example:
  "at24cm0x_write_page wp_build bus_fault 3 (\<lambda>i. 0x11) 2 driver_ready =
     Some (AT24CM0X_Status_TWI_Error,
       \<lparr>at24cm0x_device_identifier = 0x54, calls =
         [At24cm0x_wp AT24CM0X_WP_Mode_Disabled,
          Twi_start, Twi_address 0x54 0, Twi_set 0x03, Twi_set 0, Twi_set 0x11, Twi_set 0x11,
          Twi_stop,
          Systick_timer_wait_ms 10,
          At24cm0x_wp AT24CM0X_WP_Mode_Enabled]\<rparr>)"
  by (simp add: at24cm0x_write_page_def at24cm0x_send_address_def write_cycle_wait_def
      at24cm0x_write_page_loop.simps
      primitive_defs record_call_def wp_build_def header_build_def bus_fault_def
      driver_ready_def TWI_None_def Let_def)


text \<open>The witness: on the failing bus both functions return \<^verbatim>\<open>TWI_Error\<close> with the pin
  driven to \<^verbatim>\<open>DISABLED\<close> and back to \<^verbatim>\<open>ENABLED\<close>.\<close>

theorem C8_write_protect_restored_witness:
  "AT24CM0X_WP_CONTROL_EN wp_build \<and>
   (\<exists>s'. at24cm0x_write_byte wp_build bus_fault 0 0x7E driver_ready =
        Some (AT24CM0X_Status_TWI_Error, s') \<and>
      wp_modes (calls s') = [AT24CM0X_WP_Mode_Disabled, AT24CM0X_WP_Mode_Enabled]) \<and>
   (\<exists>s''. at24cm0x_write_page wp_build bus_fault 3 (\<lambda>i. 0x11) 2 driver_ready =
        Some (AT24CM0X_Status_TWI_Error, s'') \<and>
      wp_modes (calls s'') = [AT24CM0X_WP_Mode_Disabled, AT24CM0X_WP_Mode_Enabled])"
proof -
  have en: "AT24CM0X_WP_CONTROL_EN wp_build"
    by (simp add: wp_build_def)
  obtain s' where b: "at24cm0x_write_byte wp_build bus_fault 0 0x7E driver_ready =
      Some (AT24CM0X_Status_TWI_Error, s')"
    using write_byte_fault_example by blast
  obtain s'' where p: "at24cm0x_write_page wp_build bus_fault 3 (\<lambda>i. 0x11) 2 driver_ready =
      Some (AT24CM0X_Status_TWI_Error, s'')"
    using write_page_fault_example by blast
  have "wp_modes (calls s') = [AT24CM0X_WP_Mode_Disabled, AT24CM0X_WP_Mode_Enabled] \<and>
      wp_modes (calls s'') = [AT24CM0X_WP_Mode_Disabled, AT24CM0X_WP_Mode_Enabled]"
    using b p C8_write_protect_restored [OF en, of bus_fault 0 "0x7E" driver_ready
        AT24CM0X_Status_TWI_Error s' 3 "\<lambda>i. 0x11" 2 AT24CM0X_Status_TWI_Error s'']
    by (simp add: wp_build_def header_build_def driver_ready_def)
  with en b p show ?thesis by blast
qed

text \<open>
  Claim C9. In a build with the header's base address and masks, the bits of
  \<^verbatim>\<open>at24cm0x_device_identifier\<close> under \<^verbatim>\<open>AT24CM0X_ADDRESS_HIGH_MASK\<close> are zero after
  \<^verbatim>\<open>at24cm0x_init\<close> and after \<^verbatim>\<open>at24cm0x_device\<close>, and no read or write operation changes
  the identifier: the high address bits go into the byte of the address phase only.
\<close>

theorem C9_high_address_bits_clear:
  assumes "header_defaults c a2 a1"
  shows "at24cm0x_device_identifier (at24cm0x_init c s) AND AT24CM0X_ADDRESS_HIGH_MASK c = 0 \<and>
         at24cm0x_device_identifier (at24cm0x_device c ident s) AND
           AT24CM0X_ADDRESS_HIGH_MASK c = 0 \<and>
         (at24cm0x_write_byte c bus a d s = Some (st, s') \<longrightarrow>
            at24cm0x_device_identifier s' = at24cm0x_device_identifier s) \<and>
         (at24cm0x_write_page c bus p data n s = Some (st', s'') \<longrightarrow>
            at24cm0x_device_identifier s'' = at24cm0x_device_identifier s) \<and>
         at24cm0x_device_identifier (snd (snd (at24cm0x_read_current_byte c bus out s))) =
            at24cm0x_device_identifier s \<and>
         at24cm0x_device_identifier (snd (snd (at24cm0x_read_byte c bus a out s))) =
            at24cm0x_device_identifier s \<and>
         at24cm0x_device_identifier (snd (snd (at24cm0x_read_sequential c bus a n s))) =
            at24cm0x_device_identifier s"
proof -
  have init: "at24cm0x_device_identifier (at24cm0x_init c s) AND AT24CM0X_ADDRESS_HIGH_MASK c = 0"
    using assms high_bits_2mbit(2) [of a2] high_bits_1mbit(2) [of a2 a1]
      high_bits_2mbit(1) [of 0] high_bits_1mbit(1) [of 0]
    by (simp add: header_defaults_def at24cm0x_init_def Let_def
        AT24CM0X_ADDRESS_HIGH_MASK_default_def AT24CM0X_ADDRESS_default_def split: if_splits)
  have device: "at24cm0x_device_identifier (at24cm0x_device c ident s) AND
      AT24CM0X_ADDRESS_HIGH_MASK c = 0"
    using assms high_bits_2mbit(1) [of ident] high_bits_1mbit(1) [of ident]
    by (simp add: header_defaults_def at24cm0x_device_def
        AT24CM0X_ADDRESS_HIGH_MASK_default_def AT24CM0X_ADDRESS_MASK_default_def)
  have wb: "at24cm0x_write_byte c bus a d s = Some (st, s') \<longrightarrow>
      at24cm0x_device_identifier s' = at24cm0x_device_identifier s"
    using write_byte_returned by blast
  have wpg: "at24cm0x_write_page c bus p data n s = Some (st', s'') \<longrightarrow>
      at24cm0x_device_identifier s'' = at24cm0x_device_identifier s"
    using write_page_returned by blast
  have rc: "at24cm0x_device_identifier (snd (snd (at24cm0x_read_current_byte c bus out s))) =
      at24cm0x_device_identifier s"
    by (simp add: read_current_byte_driver)
  have rb: "at24cm0x_device_identifier (snd (snd (at24cm0x_read_byte c bus a out s))) =
      at24cm0x_device_identifier s"
    by (simp add: read_byte_driver)
  have rs: "at24cm0x_device_identifier (snd (snd (at24cm0x_read_sequential c bus a n s))) =
      at24cm0x_device_identifier s"
    by (simp add: read_sequential_driver)
  from init device wb wpg rc rb rs show ?thesis by blast
qed


text \<open>The first three scenarios of the spec on the default build.\<close>

lemma write_byte_example:
  "at24cm0x_write_byte header_build bus_ok 0 0x7E driver_ready =
     Some (AT24CM0X_Status_Done,
       \<lparr>at24cm0x_device_identifier = 0x54, calls =
         [Twi_start, Twi_address 0x54 0, Twi_set 0, Twi_set 0, Twi_set 0x7E, Twi_stop,
          Systick_timer_wait_ms 10]\<rparr>)"
  by (simp add: at24cm0x_write_byte_def at24cm0x_send_address_def write_cycle_wait_def
      primitive_defs record_call_def header_build_def bus_ok_def
      driver_ready_def Let_def)

lemma write_page_example:
  "at24cm0x_write_page header_build bus_ok 3 (\<lambda>i. [0x11, 0x22, 0x33] ! i) 3 driver_ready =
     Some (AT24CM0X_Status_Done,
       \<lparr>at24cm0x_device_identifier = 0x54, calls =
         [Twi_start, Twi_address 0x54 0, Twi_set 0x03, Twi_set 0,
          Twi_set 0x11, Twi_set 0x22, Twi_set 0x33, Twi_stop,
          Systick_timer_wait_ms 10]\<rparr>)"
  by (simp add: at24cm0x_write_page_def at24cm0x_send_address_def write_cycle_wait_def
      at24cm0x_write_page_loop.simps
      primitive_defs record_call_def header_build_def bus_ok_def
      driver_ready_def Let_def)

lemma read_byte_example:
  "at24cm0x_read_byte header_build bus_ok 0x1FFFF 0 driver_ready =
     (AT24CM0X_Status_Done, 0xA5,
       \<lparr>at24cm0x_device_identifier = 0x54, calls =
         [Twi_start, Twi_address 0x55 0, Twi_set 0xFF, Twi_set 0xFF, Twi_stop,
          Twi_start, Twi_address 0x54 1, Twi_get 0, Twi_stop]\<rparr>)"
  by (simp add: at24cm0x_read_byte_def at24cm0x_send_address_def
      primitive_defs record_call_def header_build_def bus_ok_def
      driver_ready_def Let_def TWI_None_def)

text \<open>The witness: the default build with A2 high.\<close>

theorem C9_high_address_bits_clear_witness:
  "header_defaults header_build 1 0 \<and>
   at24cm0x_device_identifier (at24cm0x_init header_build driver_ready) AND
     AT24CM0X_ADDRESS_HIGH_MASK header_build = 0 \<and>
   at24cm0x_device_identifier (at24cm0x_device header_build 0xFF driver_ready) AND
     AT24CM0X_ADDRESS_HIGH_MASK header_build = 0 \<and>
   (\<exists>s'. at24cm0x_write_byte header_build bus_ok 0 0x7E driver_ready =
        Some (AT24CM0X_Status_Done, s') \<and>
      at24cm0x_device_identifier s' = at24cm0x_device_identifier driver_ready) \<and>
   (\<exists>s''. at24cm0x_write_page header_build bus_ok 3 (\<lambda>i. [0x11, 0x22, 0x33] ! i) 3 driver_ready =
        Some (AT24CM0X_Status_Done, s'') \<and>
      at24cm0x_device_identifier s'' = at24cm0x_device_identifier driver_ready)"
proof -
  have h: "header_defaults header_build 1 0"
    by (simp add: header_defaults_def header_build_def AT24CM0X_ADDRESS_MASK_default_def
        AT24CM0X_ADDRESS_HIGH_MASK_default_def AT24CM0X_ADDRESS_default_def)
  obtain s' where b: "at24cm0x_write_byte header_build bus_ok 0 0x7E driver_ready =
      Some (AT24CM0X_Status_Done, s')"
    using write_byte_example by blast
  obtain s'' where p: "at24cm0x_write_page header_build bus_ok 3 (\<lambda>i. [0x11, 0x22, 0x33] ! i) 3
      driver_ready = Some (AT24CM0X_Status_Done, s'')"
    using write_page_example by blast
  show ?thesis
    using h b p C9_high_address_bits_clear [OF h, where s = driver_ready and ident = "0xFF"
        and bus = bus_ok and a = 0 and d = "0x7E" and st = AT24CM0X_Status_Done and s' = s'
        and p = 3 and data = "\<lambda>i. [0x11, 0x22, 0x33] ! i" and n = 3
        and st' = AT24CM0X_Status_Done and s'' = s'']
    by blast
qed

subsection \<open>The read-back of a written byte\<close>

text \<open>The integrity switch changes nothing before the read-back: the polling loop, the wait
  and the address phase are those of the build without it.\<close>

lemma polling_same_codes:
  assumes "TWI_Write c' = TWI_Write c" and "TWI_Ack c' = TWI_Ack c"
  shows "at24cm0x_write_acknowledge_polling c' bus s = at24cm0x_write_acknowledge_polling c bus s"
proof (cases "at24cm0x_write_acknowledge_polling c bus s")
  case (Some r)
  from polling_returned [OF this] obtain k where
    "\<forall>j<k. fst (bus (calls s @ concat (replicate (Suc j)
        [Twi_start, Twi_address (at24cm0x_device_identifier s) (TWI_Write c)]))) = TWI_Ack c"
    "fst (bus (calls s @ concat (replicate (Suc k)
        [Twi_start, Twi_address (at24cm0x_device_identifier s) (TWI_Write c)]))) \<noteq> TWI_Ack c"
    "r = s\<lparr>calls := calls s @ concat (replicate (Suc k)
        [Twi_start, Twi_address (at24cm0x_device_identifier s) (TWI_Write c)]) @ [Twi_stop]\<rparr>"
    by blast
  with polling_stops [of k bus s c'] assms Some show ?thesis by simp
next
  case None
  show ?thesis
  proof (cases "at24cm0x_write_acknowledge_polling c' bus s")
    case (Some r)
    from polling_returned [OF this] obtain k where
      "\<forall>j<k. fst (bus (calls s @ concat (replicate (Suc j)
          [Twi_start, Twi_address (at24cm0x_device_identifier s) (TWI_Write c')]))) = TWI_Ack c'"
      "fst (bus (calls s @ concat (replicate (Suc k)
          [Twi_start, Twi_address (at24cm0x_device_identifier s) (TWI_Write c')]))) \<noteq> TWI_Ack c'"
      by blast
    with polling_stops [of k bus s c] assms None show ?thesis by simp
  next
    case None
    with \<open>at24cm0x_write_acknowledge_polling c bus s = None\<close> show ?thesis by simp
  qed
qed

lemma write_cycle_wait_without_check:
  "write_cycle_wait (c\<lparr>AT24CM0X_ENABLE_INTEGRITY_CHECK := b\<rparr>) bus s = write_cycle_wait c bus s"
  using polling_same_codes [of "c\<lparr>AT24CM0X_ENABLE_INTEGRITY_CHECK := b\<rparr>" c bus s]
  by (simp add: write_cycle_wait_def)

lemma send_address_without_check:
  "at24cm0x_send_address (c\<lparr>AT24CM0X_ENABLE_INTEGRITY_CHECK := b\<rparr>) bus a s =
     at24cm0x_send_address c bus a s"
  by (simp add: at24cm0x_send_address_def)

text \<open>\<^verbatim>\<open>at24cm0x_write_byte\<close> by its exits.\<close>

lemma write_byte_unfolded:
  fixes c bus a d s
  defines "t \<equiv> at24cm0x_send_address c bus a
      (twi_start (if AT24CM0X_WP_CONTROL_EN c then at24cm0x_wp AT24CM0X_WP_Mode_Disabled s else s))"
  defines "u \<equiv> twi_set bus d (snd t)"
  defines "lock \<equiv> (\<lambda>s6. if AT24CM0X_WP_CONTROL_EN c
      then at24cm0x_wp AT24CM0X_WP_Mode_Enabled s6 else s6)"
  shows "at24cm0x_write_byte c bus a d s =
     (if AT24CM0X_MEMORY_SIZE c \<le> a then Some (AT24CM0X_Status_Address_Error, s)
      else case write_cycle_wait c bus (twi_stop (snd u)) of
        None \<Rightarrow> None
      | Some s6 \<Rightarrow>
          if (TWI_None OR fst t) OR fst u \<noteq> TWI_None
          then Some (AT24CM0X_Status_TWI_Error, lock s6)
          else if AT24CM0X_ENABLE_INTEGRITY_CHECK c
          then (case at24cm0x_read_byte c bus a 0 (lock s6) of (status, temp, s8) \<Rightarrow>
                  if status \<noteq> AT24CM0X_Status_Done then Some (AT24CM0X_Status_TWI_Error, s8)
                  else if d \<noteq> temp then Some (AT24CM0X_Status_Data_Error, s8)
                  else Some (AT24CM0X_Status_Done, s8))
          else Some (AT24CM0X_Status_Done, lock s6))"
  unfolding t_def u_def lock_def
  by (simp add: at24cm0x_write_byte_def Let_def split_def split: option.split)

text \<open>
  Claim C10. With the integrity check compiled in, when the write itself has gone through
  (the build without the check returns \<^verbatim>\<open>Done\<close>, leaving the driver \<open>s1\<close>),
  \<^verbatim>\<open>at24cm0x_write_byte\<close> reads the byte back at the written address and returns
  \<^verbatim>\<open>TWI_Error\<close> when the read-back returns anything but \<^verbatim>\<open>Done\<close>, \<^verbatim>\<open>Data_Error\<close> when the
  read-back returns \<^verbatim>\<open>Done\<close> and the byte differs, and \<^verbatim>\<open>Done\<close> otherwise; and
  \<^verbatim>\<open>Data_Error\<close> is returned only after a read-back that returned \<^verbatim>\<open>Done\<close> with a
  different byte.
\<close>

theorem C10_read_back_status:
  assumes "AT24CM0X_ENABLE_INTEGRITY_CHECK c"
  shows "(at24cm0x_write_byte (c\<lparr>AT24CM0X_ENABLE_INTEGRITY_CHECK := False\<rparr>) bus a d s =
            Some (AT24CM0X_Status_Done, s1) \<longrightarrow>
          at24cm0x_write_byte c bus a d s =
            (case at24cm0x_read_byte c bus a 0 s1 of (status, temp, s2) \<Rightarrow>
               Some (if status \<noteq> AT24CM0X_Status_Done then AT24CM0X_Status_TWI_Error
                     else if d \<noteq> temp then AT24CM0X_Status_Data_Error
                     else AT24CM0X_Status_Done, s2))) \<and>
         (at24cm0x_write_byte c bus a d s = Some (AT24CM0X_Status_Data_Error, s') \<longrightarrow>
          (\<exists>s1 temp.
             at24cm0x_write_byte (c\<lparr>AT24CM0X_ENABLE_INTEGRITY_CHECK := False\<rparr>) bus a d s =
               Some (AT24CM0X_Status_Done, s1) \<and>
             at24cm0x_read_byte c bus a 0 s1 = (AT24CM0X_Status_Done, temp, s') \<and>
             d \<noteq> temp))"
proof (intro conjI impI)
  assume "at24cm0x_write_byte (c\<lparr>AT24CM0X_ENABLE_INTEGRITY_CHECK := False\<rparr>) bus a d s =
            Some (AT24CM0X_Status_Done, s1)"
  then show "at24cm0x_write_byte c bus a d s =
            (case at24cm0x_read_byte c bus a 0 s1 of (status, temp, s2) \<Rightarrow>
               Some (if status \<noteq> AT24CM0X_Status_Done then AT24CM0X_Status_TWI_Error
                     else if d \<noteq> temp then AT24CM0X_Status_Data_Error
                     else AT24CM0X_Status_Done, s2))"
    using assms
    by (auto simp: write_byte_unfolded [of c] write_byte_unfolded [of "c\<lparr>AT24CM0X_ENABLE_INTEGRITY_CHECK := False\<rparr>"]
        write_cycle_wait_without_check send_address_without_check
        split: if_splits option.splits prod.splits)
next
  assume "at24cm0x_write_byte c bus a d s = Some (AT24CM0X_Status_Data_Error, s')"
  then show "\<exists>s1 temp.
             at24cm0x_write_byte (c\<lparr>AT24CM0X_ENABLE_INTEGRITY_CHECK := False\<rparr>) bus a d s =
               Some (AT24CM0X_Status_Done, s1) \<and>
             at24cm0x_read_byte c bus a 0 s1 = (AT24CM0X_Status_Done, temp, s') \<and>
             d \<noteq> temp"
    using assms
    by (auto simp: write_byte_unfolded [of c] write_byte_unfolded [of "c\<lparr>AT24CM0X_ENABLE_INTEGRITY_CHECK := False\<rparr>"]
        write_cycle_wait_without_check send_address_without_check
        split: if_splits option.splits prod.splits)
qed


text \<open>The witness: on the acknowledging bus the byte read back is \<^verbatim>\<open>0xA5\<close>, not the \<^verbatim>\<open>0x7E\<close>
  written, and the status is \<^verbatim>\<open>Data_Error\<close>; on the bus that fails from the read-back on,
  the status is \<^verbatim>\<open>TWI_Error\<close>.\<close>

theorem C10_read_back_status_witness:
  "AT24CM0X_ENABLE_INTEGRITY_CHECK integrity_build \<and>
   (\<exists>s1 s'.
      at24cm0x_write_byte (integrity_build\<lparr>AT24CM0X_ENABLE_INTEGRITY_CHECK := False\<rparr>)
        bus_ok 0 0x7E driver_ready = Some (AT24CM0X_Status_Done, s1) \<and>
      at24cm0x_read_byte integrity_build bus_ok 0 0 s1 = (AT24CM0X_Status_Done, 0xA5, s') \<and>
      at24cm0x_write_byte integrity_build bus_ok 0 0x7E driver_ready =
        Some (AT24CM0X_Status_Data_Error, s')) \<and>
   (\<exists>s1 s'.
      at24cm0x_write_byte (integrity_build\<lparr>AT24CM0X_ENABLE_INTEGRITY_CHECK := False\<rparr>)
        (bus_fault_from 8) 0 0x7E driver_ready = Some (AT24CM0X_Status_Done, s1) \<and>
      at24cm0x_read_byte integrity_build (bus_fault_from 8) 0 0 s1 =
        (AT24CM0X_Status_TWI_Error, 0x7E, s') \<and>
      at24cm0x_write_byte integrity_build (bus_fault_from 8) 0 0x7E driver_ready =
        Some (AT24CM0X_Status_TWI_Error, s'))"
proof -
  let ?c = integrity_build
  let ?c' = "integrity_build\<lparr>AT24CM0X_ENABLE_INTEGRITY_CHECK := False\<rparr>"
  let ?s1 = "\<lparr>at24cm0x_device_identifier = 0x54, calls =
         [Twi_start, Twi_address 0x54 0, Twi_set 0, Twi_set 0, Twi_set 0x7E, Twi_stop,
          Systick_timer_wait_ms 10]\<rparr>"
  let ?s2 = "\<lparr>at24cm0x_device_identifier = 0x54, calls =
         [Twi_start, Twi_address 0x54 0, Twi_set 0, Twi_set 0, Twi_set 0x7E, Twi_stop,
          Systick_timer_wait_ms 10,
          Twi_start, Twi_address 0x54 0, Twi_set 0, Twi_set 0, Twi_stop,
          Twi_start, Twi_address 0x54 1, Twi_get 0, Twi_stop]\<rparr>"
  have en: "AT24CM0X_ENABLE_INTEGRITY_CHECK ?c"
    by (simp add: integrity_build_def)
  have w1: "at24cm0x_write_byte ?c' bus_ok 0 0x7E driver_ready = Some (AT24CM0X_Status_Done, ?s1)"
    by (simp add: at24cm0x_write_byte_def at24cm0x_send_address_def write_cycle_wait_def
      primitive_defs record_call_def integrity_build_def header_build_def bus_ok_def
      driver_ready_def Let_def)
  have r1: "at24cm0x_read_byte ?c bus_ok 0 0 ?s1 = (AT24CM0X_Status_Done, 0xA5, ?s2)"
    by (simp add: at24cm0x_read_byte_def at24cm0x_send_address_def
      primitive_defs record_call_def integrity_build_def header_build_def bus_ok_def
      Let_def TWI_None_def)
  have w2: "at24cm0x_write_byte ?c' (bus_fault_from 8) 0 0x7E driver_ready =
      Some (AT24CM0X_Status_Done, ?s1)"
    by (simp add: at24cm0x_write_byte_def at24cm0x_send_address_def write_cycle_wait_def
      primitive_defs record_call_def integrity_build_def header_build_def bus_fault_from_def
      driver_ready_def Let_def)
  have r2: "at24cm0x_read_byte ?c (bus_fault_from 8) 0 0 ?s1 =
      (AT24CM0X_Status_TWI_Error, 0x7E, ?s2)"
    by (simp add: at24cm0x_read_byte_def at24cm0x_send_address_def
      primitive_defs record_call_def integrity_build_def header_build_def bus_fault_from_def
      Let_def TWI_None_def)
  have d1: "at24cm0x_write_byte ?c bus_ok 0 0x7E driver_ready =
      Some (AT24CM0X_Status_Data_Error, ?s2)"
    using C10_read_back_status [OF en, THEN conjunct1, rule_format, OF w1] by (simp add: r1)
  have d2: "at24cm0x_write_byte ?c (bus_fault_from 8) 0 0x7E driver_ready =
      Some (AT24CM0X_Status_TWI_Error, ?s2)"
    using C10_read_back_status [OF en, THEN conjunct1, rule_format, OF w2] by (simp add: r2)
  from en w1 r1 d1 w2 r2 d2 show ?thesis by blast
qed

subsection \<open>Faults of the bus in a page write\<close>

text \<open>
  Claim C3 says that a fault of the bus in the address phase of \<^verbatim>\<open>at24cm0x_write_page\<close> is
  accumulated and makes the function return \<^verbatim>\<open>TWI_Error\<close>. The function drops the value
  that \<^verbatim>\<open>at24cm0x_send_address\<close> returns (line 193), where \<^verbatim>\<open>at24cm0x_write_byte\<close>,
  \<^verbatim>\<open>at24cm0x_read_byte\<close> and \<^verbatim>\<open>at24cm0x_read_sequential\<close> accumulate it. On a bus that fails
  the three calls of the address phase and acknowledges the data, the address phase reports
  the fault, the page write of three bytes to page 3 returns \<^verbatim>\<open>Done\<close>, and the byte write to
  the same address returns \<^verbatim>\<open>TWI_Error\<close>.
\<close>

theorem C3_write_page_drops_address_fault:
  "fst (at24cm0x_send_address header_build (bus_fault_until 5) 0x300 (twi_start driver_ready)) \<noteq>
     TWI_None \<and>
   at24cm0x_write_page header_build (bus_fault_until 5) 3 (\<lambda>i. [0x11, 0x22, 0x33] ! i) 3
       driver_ready =
     Some (AT24CM0X_Status_Done,
       \<lparr>at24cm0x_device_identifier = 0x54, calls =
         [Twi_start, Twi_address 0x54 0, Twi_set 0x03, Twi_set 0,
          Twi_set 0x11, Twi_set 0x22, Twi_set 0x33, Twi_stop,
          Systick_timer_wait_ms 10]\<rparr>) \<and>
   at24cm0x_write_byte header_build (bus_fault_until 5) 0x300 0x11 driver_ready =
     Some (AT24CM0X_Status_TWI_Error,
       \<lparr>at24cm0x_device_identifier = 0x54, calls =
         [Twi_start, Twi_address 0x54 0, Twi_set 0x03, Twi_set 0, Twi_set 0x11, Twi_stop,
          Systick_timer_wait_ms 10]\<rparr>)"
  by (simp add: at24cm0x_write_page_def at24cm0x_write_byte_def at24cm0x_send_address_def
      write_cycle_wait_def at24cm0x_write_page_loop.simps
      primitive_defs record_call_def header_build_def bus_fault_until_def
      driver_ready_def Let_def TWI_None_def)

text \<open>
  Claim C5 says that \<^verbatim>\<open>at24cm0x_write_page\<close> handles a fault as the byte path does: with a
  fault accumulated it returns \<^verbatim>\<open>TWI_Error\<close> before any read-back, and \<^verbatim>\<open>Data_Error\<close> stands
  for a mismatch on a fault-free transport. The function tests the accumulated fault after
  the read-back and the comparison (line 228 comes after lines 211 to 226). On a bus that
  fails the one data byte of a page write and delivers \<^verbatim>\<open>0xA5\<close> on the read-back, the page
  write makes the read-back and returns \<^verbatim>\<open>Data_Error\<close>; the byte write with the same fault
  returns \<^verbatim>\<open>TWI_Error\<close> and reads nothing back.
\<close>

theorem C5_write_page_checks_fault_last:
  "at24cm0x_write_page integrity_build (bus_fault_at 5) 3 (\<lambda>i. 0x11) 1 driver_ready =
     Some (AT24CM0X_Status_Data_Error,
       \<lparr>at24cm0x_device_identifier = 0x54, calls =
         [Twi_start, Twi_address 0x54 0, Twi_set 0x03, Twi_set 0, Twi_set 0x11, Twi_stop,
          Systick_timer_wait_ms 10,
          Twi_start, Twi_address 0x54 0, Twi_set 0x03, Twi_set 0, Twi_stop,
          Twi_start, Twi_address 0x54 1, Twi_get 0, Twi_stop]\<rparr>) \<and>
   at24cm0x_write_byte integrity_build (bus_fault_at 5) 0x300 0x11 driver_ready =
     Some (AT24CM0X_Status_TWI_Error,
       \<lparr>at24cm0x_device_identifier = 0x54, calls =
         [Twi_start, Twi_address 0x54 0, Twi_set 0x03, Twi_set 0, Twi_set 0x11, Twi_stop,
          Systick_timer_wait_ms 10]\<rparr>)"
proof -
  have one: "\<not> (256 :: ulong) \<le> 1" by (simp add: word_le_nat_alt)
  show ?thesis
    by (simp add: one at24cm0x_write_page_def at24cm0x_write_byte_def at24cm0x_send_address_def
      at24cm0x_read_sequential_def at24cm0x_read_sequential_loop.simps
      at24cm0x_write_page_compare.simps
      write_cycle_wait_def at24cm0x_write_page_loop.simps
      primitive_defs record_call_def integrity_build_def header_build_def bus_fault_at_def
      driver_ready_def Let_def TWI_None_def)
qed

end
